theory Spec2Isabelle
  imports Complex_Main "HOL-Library.AList"
begin

section \<open>Values of the component: numbers and strings\<close>

text \<open>
  The component of \<^verbatim>\<open>animate-height.ts\<close> works on values of the TypeScript type
  \<^verbatim>\<open>string | number\<close> (the prop \<^verbatim>\<open>collapsedHeight\<close>) and
  \<^verbatim>\<open>Height = 'auto' | number | `${number}%`\<close>, which at run time is the same
  thing: a number or a string.  Numbers are the finite ones, as reals.
\<close>

datatype jsval = Num real | Str string

type_synonym Height = jsval

datatype error = ReferenceError | TypeError

subsection \<open>Decimal numerals\<close>

definition is_digit :: "char \<Rightarrow> bool" where
  "is_digit c = (c \<in> set ''0123456789'')"

definition digit_val :: "char \<Rightarrow> nat" where
  "digit_val c = of_char c - 48"

definition nat_of_digits :: "string \<Rightarrow> nat" where
  "nat_of_digits ds = foldl (\<lambda>n c. 10 * n + digit_val c) 0 ds"

definition unsigned_decimal :: "string \<Rightarrow> real option" where
  "unsigned_decimal s =
     (let ip = takeWhile is_digit s; rest = dropWhile is_digit s in
      if ip = [] then None
      else (case rest of
              [] \<Rightarrow> Some (real (nat_of_digits ip))
            | c # fp \<Rightarrow>
                if c = CHR ''.'' \<and> fp \<noteq> [] \<and> list_all is_digit fp
                then Some (real (nat_of_digits ip) + real (nat_of_digits fp) / 10 ^ length fp)
                else None))"

text \<open>
  The number a string denotes when it is a plain decimal numeral (an optional minus
  sign, digits, an optional fraction); \<open>None\<close> stands for JavaScript's NaN.
\<close>

definition decimal :: "string \<Rightarrow> real option" where
  "decimal s =
     (case s of
        [] \<Rightarrow> None
      | c # t \<Rightarrow> if c = CHR ''-'' then map_option uminus (unsigned_decimal t)
                 else unsigned_decimal s)"

text \<open>
  Modelled from the spec: \<^verbatim>\<open>isNumber\<close> and \<^verbatim>\<open>isPercentage\<close> of
  \<^verbatim>\<open>~/utils/validation.js\<close>, which is not among the sources.  The spec speaks of a
  height that is "numeric" and of a "percentage string (e.g. "15%")"; the code's comments
  add that the string "0" counts as the number 0.  So a value is numeric when it is a
  number or a decimal numeral, and a percentage when it is a string that ends in its only
  percent sign after a decimal numeral.
\<close>

definition isNumber :: "jsval \<Rightarrow> bool" where
  "isNumber v = (case v of Num r \<Rightarrow> True | Str s \<Rightarrow> decimal s \<noteq> None)"

definition isPercentage :: "jsval \<Rightarrow> bool" where
  "isPercentage v =
     (case v of
        Num r \<Rightarrow> False
      | Str s \<Rightarrow> s \<noteq> [] \<and> last s = CHR ''%'' \<and> decimal (butlast s) \<noteq> None)"

text \<open>JavaScript's \<^verbatim>\<open>Number(v)\<close>; \<open>None\<close> is NaN.\<close>

definition toNumber :: "jsval \<Rightarrow> real option" where
  "toNumber v = (case v of Num r \<Rightarrow> Some r | Str s \<Rightarrow> decimal s)"

text \<open>\<^verbatim>\<open>Math.max(0, Number(v))\<close>, for a \<open>v\<close> that \<open>isNumber\<close> accepts.\<close>

definition clampNumber :: "jsval \<Rightarrow> jsval" where
  "clampNumber v = (case toNumber v of Some r \<Rightarrow> Num (max 0 r) | None \<Rightarrow> v)"

subsection \<open>Relational operators\<close>

fun str_lt :: "string \<Rightarrow> string \<Rightarrow> bool" where
  "str_lt [] [] = False"
| "str_lt [] (y # ys) = True"
| "str_lt (x # xs) [] = False"
| "str_lt (x # xs) (y # ys) =
     ((of_char x :: nat) < of_char y \<or> (x = y \<and> str_lt xs ys))"

text \<open>
  \<^verbatim>\<open>a < b\<close>: two strings compare by code units, anything else as numbers, and a
  comparison with NaN is false.  \<^verbatim>\<open>a > b\<close> is \<open>js_lt b a\<close>.
\<close>

definition js_lt :: "jsval \<Rightarrow> jsval \<Rightarrow> bool" where
  "js_lt a b =
     (case (a, b) of
        (Str s, Str t) \<Rightarrow> str_lt s t
      | _ \<Rightarrow> (case (toNumber a, toNumber b) of
                (Some x, Some y) \<Rightarrow> x < y
              | _ \<Rightarrow> False))"

definition js_gt :: "jsval \<Rightarrow> jsval \<Rightarrow> bool" where
  "js_gt a b = js_lt b a"

section \<open>Props, class names and the state record\<close>

text \<open>
  An object literal with computed keys: a later entry with the key of an earlier one
  overwrites its value in place.  The same function merges two objects by spread.
\<close>

definition assign :: "('k \<times> 'v) list \<Rightarrow> ('k \<times> 'v) list \<Rightarrow> ('k \<times> 'v) list" where
  "assign base kvs = fold (\<lambda>kv al. AList.update (fst kv) (snd kv) al) kvs base"

definition ANIMATION_STATE_CLASSES :: "(string \<times> string) list" where
  "ANIMATION_STATE_CLASSES =
     [(''animating'', ''vah-animating''),
      (''animatingUp'', ''vah-animating--up''),
      (''animatingDown'', ''vah-animating--down''),
      (''animatingToHeightZero'', ''vah-animating--to-height-zero''),
      (''animatingToHeightAuto'', ''vah-animating--to-height-auto''),
      (''animatingToHeightSpecific'', ''vah-animating--to-height-specific''),
      (''static'', ''vah-static''),
      (''staticHeightZero'', ''vah-static--height-zero''),
      (''staticHeightAuto'', ''vah-static--height-auto''),
      (''staticHeightSpecific'', ''vah-static--height-specific'')]"

text \<open>Reading a property of the class-name object; a missing one reads as undefined.\<close>

definition className :: "(string \<times> string) list \<Rightarrow> string \<Rightarrow> string" where
  "className names k = (case map_of names k of Some c \<Rightarrow> c | None \<Rightarrow> ''undefined'')"

record Props =
  p_ariaHidden :: "bool option"
  p_animateOpacity :: bool
  p_animationStateClasses :: "(string \<times> string) list"
  p_applyInlineTransitions :: bool
  p_contentClass :: "string option"
  p_delay :: real
  p_duration :: real
  p_easing :: string
  p_collapsedHeight :: jsval
  p_id :: "string option"
  p_isExpanded :: bool

text \<open>The props with every default of the component, for a given \<open>collapsedHeight\<close>.\<close>

definition defaultProps :: "jsval \<Rightarrow> Props" where
  "defaultProps h =
     \<lparr>p_ariaHidden = None, p_animateOpacity = False,
      p_animationStateClasses = ANIMATION_STATE_CLASSES,
      p_applyInlineTransitions = True, p_contentClass = None,
      p_delay = 0, p_duration = 250, p_easing = ''ease'',
      p_collapsedHeight = h, p_id = None, p_isExpanded = False\<rparr>"

text \<open>The validator of \<^verbatim>\<open>collapsedHeight\<close>: its verdict and what it logs.\<close>

datatype console_message = InvalidHeight jsval

definition validator :: "jsval \<Rightarrow> bool \<times> console_message list" where
  "validator v =
     (if (case v of Num r \<Rightarrow> 0 \<le> r | Str s \<Rightarrow> False) \<or> isPercentage v \<or> v = Str ''auto''
      then (True, [])
      else (False, [InvalidHeight v]))"

text \<open>\<^verbatim>\<open>type State\<close>: what the render function shows.\<close>

record State =
  animationStateClasses :: "(string \<times> bool) list"
  height :: Height
  overflow :: "string option"
  shouldUseTransitions :: bool

definition getStaticStateClasses :: "(string \<times> string) list \<Rightarrow> Height \<Rightarrow> (string \<times> bool) list" where
  "getStaticStateClasses names h =
     assign []
       [(className names ''static'', True),
        (className names ''staticHeightZero'', h = Num 0),
        (className names ''staticHeightSpecific'', (case h of Num r \<Rightarrow> 0 < r | Str s \<Rightarrow> False)),
        (className names ''staticHeightAuto'', h = Str ''auto'')]"

record Timings =
  t_delay :: real
  t_duration :: real

definition getTimings :: "bool \<Rightarrow> Props \<Rightarrow> Timings" where
  "getTimings reducedMotion props =
     (if reducedMotion then \<lparr>t_delay = 0, t_duration = 0\<rparr>
      else \<lparr>t_delay = p_delay props, t_duration = p_duration props\<rparr>)"

section \<open>The component instance\<close>

text \<open>The content element, as far as the component touches it.\<close>

record Element =
  display :: string
  styleOverflow :: string
  offsetHeight :: nat

text \<open>
  \<^verbatim>\<open>timeoutState\<close> of \<^verbatim>\<open>onUpdated\<close>, a partial \<^verbatim>\<open>State\<close>: \<open>None\<close> is a
  property the object does not have.  Its \<^verbatim>\<open>overflow\<close> is there from the start and
  its \<^verbatim>\<open>height\<close> is assigned on every path before anything reads it, so both are
  plain fields (\<open>ts_overflow = None\<close> is the value \<^verbatim>\<open>null\<close>).
\<close>

record TimeoutState =
  ts_animationStateClasses :: "(string \<times> bool) list option"
  ts_height :: Height
  ts_overflow :: "string option"
  ts_shouldUseTransitions :: "bool option"

text \<open>\<^verbatim>\<open>{ ...state.value, ...timeoutState }\<close>\<close>

definition spread :: "State \<Rightarrow> TimeoutState \<Rightarrow> State" where
  "spread st ts =
     \<lparr>animationStateClasses =
        (case ts_animationStateClasses ts of None \<Rightarrow> animationStateClasses st | Some c \<Rightarrow> c),
      height = ts_height ts,
      overflow = ts_overflow ts,
      shouldUseTransitions =
        (case ts_shouldUseTransitions ts of None \<Rightarrow> shouldUseTransitions st | Some b \<Rightarrow> b)\<rparr>"

text \<open>
  The three closures \<^verbatim>\<open>onUpdated\<close> hands to the browser, each with the variables it
  captured: the start tick of the branch that animates from \<open>auto\<close> (\<open>timeoutState\<close>),
  the completion timeout of that branch (\<open>timeoutState\<close>,
  \<open>timeoutAnimationStateClasses\<close>), and the completion timeout of the other branch
  (\<open>timeoutState\<close>, \<open>timeoutAnimationStateClasses\<close>, \<open>newHeight\<close>).
\<close>

datatype callback =
    StartTick TimeoutState
  | ClassesTimeout TimeoutState "(string \<times> bool) list"
  | EndTimeout TimeoutState "(string \<times> bool) list" Height

datatype event = AnimationStart Height | AnimationEnd Height

text \<open>
  The variables of \<^verbatim>\<open>setup\<close> that its closures share, followed by what the browser
  and the host keep for the instance: the pending timeouts (handle, milliseconds,
  callback), the pending animation frames, the next free handle and the events emitted
  so far.  \<open>heightVar\<close> and \<open>classNames\<close> are the variables \<^verbatim>\<open>height\<close> and
  \<^verbatim>\<open>animationStateClasses\<close> of \<^verbatim>\<open>setup\<close>; its variable \<^verbatim>\<open>overflow\<close> is read only
  when \<^verbatim>\<open>setup\<close> builds the first state.
\<close>

record Instance =
  contentElement :: "Element option"
  animationFrameIds :: "nat list"
  collapsedHeight :: Height
  heightVar :: Height
  classNames :: "(string \<times> string) list"
  prefersReducedMotion :: bool
  state :: State
  prevState :: State
  timeoutId :: "nat option"
  animationClassesTimeoutId :: "nat option"
  prevHeightProp :: Height
  prevIsExpanded :: bool
  timers :: "(nat \<times> real \<times> callback) list"
  frames :: "(nat \<times> callback) list"
  nextHandle :: nat
  emitted :: "event list"

subsection \<open>Setup\<close>

text \<open>
  How the compiler emits \<^verbatim>\<open>let\<close>: as it is (ES2015 and later), where a variable
  cannot be touched before its declaration has run, or as \<^verbatim>\<open>var\<close> (ES5), where it can.
  The build configuration is not among the sources, so the target is a parameter.
\<close>

datatype es_target = ES5 | ES2015

text \<open>
  An assignment to \<^verbatim>\<open>overflow\<close>.  The binding is \<open>None\<close> until the declaration
  \<^verbatim>\<open>let overflow = 'visible'\<close> has run.
\<close>

definition assignOverflow :: "es_target \<Rightarrow> string option \<Rightarrow> string \<Rightarrow> error + string option" where
  "assignOverflow target binding v =
     (if binding = None \<and> target = ES2015 then Inl ReferenceError else Inr (Some v))"

text \<open>
  \<^verbatim>\<open>parseHeight\<close> returns the height and, as it assigns \<^verbatim>\<open>overflow\<close>, the new binding
  of that variable.
\<close>

definition parseHeight ::
  "es_target \<Rightarrow> jsval \<Rightarrow> string option \<Rightarrow> error + (Height \<times> string option)" where
  "parseHeight target v binding =
     (if isNumber v then
        (case assignOverflow target binding ''hidden'' of
           Inl e \<Rightarrow> Inl e
         | Inr b \<Rightarrow> Inr (clampNumber v, b))
      else if isPercentage v then
        (case assignOverflow target binding ''hidden'' of
           Inl e \<Rightarrow> Inl e
         | Inr b \<Rightarrow> Inr (if v = Str ''0%'' then Num 0 else v, b))
      else Inr (Str ''auto'', binding))"

text \<open>
  \<^verbatim>\<open>setup\<close>, up to the registration of the hooks.  \<^verbatim>\<open>parseHeight\<close> is called on
  line 123, before the declaration of \<^verbatim>\<open>overflow\<close> on line 125 has run; that
  declaration then sets the variable to \<open>visible\<close>.  \<open>reducedMotion\<close> is what
  \<^verbatim>\<open>window.matchMedia\<close> answered.
\<close>

definition setupComponent :: "es_target \<Rightarrow> bool \<Rightarrow> Props \<Rightarrow> error + Instance" where
  "setupComponent target reducedMotion props =
     (case parseHeight target (p_collapsedHeight props) None of
        Inl e \<Rightarrow> Inl e
      | Inr (h, binding) \<Rightarrow>
          let names = assign ANIMATION_STATE_CLASSES (p_animationStateClasses props);
              st = \<lparr>animationStateClasses = getStaticStateClasses names h,
                    height = h, overflow = Some ''visible'', shouldUseTransitions = False\<rparr>
          in Inr \<lparr>contentElement = None, animationFrameIds = [],
                  collapsedHeight = h, heightVar = h,
                  classNames = names, prefersReducedMotion = reducedMotion,
                  state = st, prevState = st,
                  timeoutId = None, animationClassesTimeoutId = None,
                  prevHeightProp = h, prevIsExpanded = p_isExpanded props,
                  timers = [], frames = [], nextHandle = 0, emitted = []\<rparr>)"

subsection \<open>The helpers of setup\<close>

definition updateState :: "State \<Rightarrow> Instance \<Rightarrow> Instance" where
  "updateState newState s = s\<lparr>prevState := state s, state := newState\<rparr>"

definition emit :: "event \<Rightarrow> Instance \<Rightarrow> Instance" where
  "emit e s = s\<lparr>emitted := emitted s @ [e]\<rparr>"

text \<open>
  \<^verbatim>\<open>contentElement.value!.style.display = ...\<close>: a TypeError when the ref holds no
  element.
\<close>

definition setDisplay :: "string \<Rightarrow> Instance \<Rightarrow> error + Instance" where
  "setDisplay d s =
     (case contentElement s of
        None \<Rightarrow> Inl TypeError
      | Some el \<Rightarrow> Inr (s\<lparr>contentElement := Some (el\<lparr>display := d\<rparr>)\<rparr>))"

definition showContent :: "Height \<Rightarrow> Instance \<Rightarrow> error + Instance" where
  "showContent h s = (if h = collapsedHeight s then setDisplay [] s else Inr s)"

definition hideContent :: "Height \<Rightarrow> Instance \<Rightarrow> error + Instance" where
  "hideContent newHeight s = (if newHeight = Num 0 then setDisplay ''none'' s else Inr s)"

text \<open>
  \<^verbatim>\<open>setTimeout\<close> and \<^verbatim>\<open>clearTimeout\<close>; clearing a handle that is not pending, or
  no handle at all, does nothing.
\<close>

definition setTimeout :: "callback \<Rightarrow> real \<Rightarrow> Instance \<Rightarrow> nat \<times> Instance" where
  "setTimeout cb ms s =
     (nextHandle s,
      s\<lparr>timers := timers s @ [(nextHandle s, ms, cb)], nextHandle := Suc (nextHandle s)\<rparr>)"

definition clearTimeout :: "nat option \<Rightarrow> Instance \<Rightarrow> Instance" where
  "clearTimeout h s =
     (case h of
        None \<Rightarrow> s
      | Some i \<Rightarrow> s\<lparr>timers := filter (\<lambda>t. fst t \<noteq> i) (timers s)\<rparr>)"

text \<open>
  Modelled from the spec: \<^verbatim>\<open>startAnimationHelper\<close> and \<^verbatim>\<open>cancelAnimationFrames\<close>
  of \<^verbatim>\<open>~/utils/animation.js\<close>, which is not among the sources.  The spec has the start
  tick as one next-frame callback with a cancellation handle that the component keeps:
  the helper schedules the callback for the next frame and returns its handles, and
  cancelling removes the pending frames with these handles.
\<close>

definition startAnimationHelper :: "callback \<Rightarrow> Instance \<Rightarrow> nat list \<times> Instance" where
  "startAnimationHelper cb s =
     ([nextHandle s],
      s\<lparr>frames := frames s @ [(nextHandle s, cb)], nextHandle := Suc (nextHandle s)\<rparr>)"

definition cancelAnimationFrames :: "nat list \<Rightarrow> Instance \<Rightarrow> Instance" where
  "cancelAnimationFrames ids s = s\<lparr>frames := filter (\<lambda>f. fst f \<notin> set ids) (frames s)\<rparr>"

subsection \<open>onMounted\<close>

definition onMounted :: "Instance \<Rightarrow> error + Instance" where
  "onMounted s =
     (if contentElement s \<noteq> None then hideContent (collapsedHeight s) s else Inr s)"

text \<open>The host attaches the content element to the ref and calls the hook.\<close>

definition mount :: "Element \<Rightarrow> Instance \<Rightarrow> error + Instance" where
  "mount el s = onMounted (s\<lparr>contentElement := Some el\<rparr>)"

subsection \<open>onUpdated\<close>

text \<open>
  Lines 266 to 297: the height to set now (\<^verbatim>\<open>newHeight\<close>) and the partial state for
  the end of the animation (\<^verbatim>\<open>timeoutState\<close>), from the variable \<^verbatim>\<open>height\<close>, the
  previous height and the measured content height.
\<close>

definition resolveTarget :: "Height \<Rightarrow> Height \<Rightarrow> nat \<Rightarrow> Height \<times> TimeoutState" where
  "resolveTarget h prevHeight contentHeight =
     (let (newHeight, timeoutState) =
            (if isNumber h then
               (clampNumber h,
                \<lparr>ts_animationStateClasses = None, ts_height = clampNumber h,
                 ts_overflow = Some ''hidden'', ts_shouldUseTransitions = None\<rparr>)
             else if isPercentage h then
               (if h = Str ''0%'' then Num 0 else h,
                \<lparr>ts_animationStateClasses = None,
                 ts_height = (if h = Str ''0%'' then Num 0 else h),
                 ts_overflow = Some ''hidden'', ts_shouldUseTransitions = None\<rparr>)
             else
               (Num (real contentHeight),
                \<lparr>ts_animationStateClasses = None, ts_height = Str ''auto'',
                 ts_overflow = None, ts_shouldUseTransitions = None\<rparr>))
      in if prevHeight = Str ''auto''
         then (Num (real contentHeight), timeoutState\<lparr>ts_height := newHeight\<rparr>)
         else (newHeight, timeoutState))"

text \<open>Lines 299 to 314: the classes while the animation runs.\<close>

definition animatingClasses ::
  "(string \<times> string) list \<Rightarrow> Height \<Rightarrow> Height \<Rightarrow> TimeoutState \<Rightarrow> (string \<times> bool) list" where
  "animatingClasses names h prevHeight timeoutState =
     assign []
       [(className names ''animating'', True),
        (className names ''animatingUp'', prevHeight = Str ''auto'' \<or> js_lt h prevHeight),
        (className names ''animatingDown'', h = Str ''auto'' \<or> js_gt h prevHeight),
        (className names ''animatingToHeightZero'', ts_height timeoutState = Num 0),
        (className names ''animatingToHeightAuto'', ts_height timeoutState = Str ''auto''),
        (className names ''animatingToHeightSpecific'', js_gt (ts_height timeoutState) (Num 0))]"

text \<open>
  The hook.  It reads \<^verbatim>\<open>delay\<close>, \<^verbatim>\<open>duration\<close> and \<^verbatim>\<open>isExpanded\<close> of the props;
  \<^verbatim>\<open>prevIsExpanded\<close> is the variable set in \<^verbatim>\<open>setup\<close>, which nothing assigns again.
\<close>

definition onUpdated :: "Props \<Rightarrow> Instance \<Rightarrow> error + Instance" where
  "onUpdated props s =
     (if contentElement s = None \<or> prevIsExpanded s = p_isExpanded props then Inr s
      else
        let prevHeight = prevHeightProp s;
            s1 = s\<lparr>prevHeightProp := heightVar s\<rparr>
        in case showContent (height (prevState s1)) s1 of
             Inl e \<Rightarrow> Inl e
           | Inr s2 \<Rightarrow>
              (case contentElement s2 of
                 None \<Rightarrow> Inl TypeError
               | Some el \<Rightarrow>
                   let contentHeight = offsetHeight (el\<lparr>styleOverflow := ''hidden''\<rparr>);
                       s3 = s2\<lparr>contentElement := Some (el\<lparr>styleOverflow := []\<rparr>)\<rparr>;
                       totalDuration = p_duration props + p_delay props;
                       isCurrentHeightAuto = (prevHeight = Str ''auto'');
                       (newHeight, timeoutState) =
                         resolveTarget (heightVar s3) prevHeight contentHeight;
                       updatedAnimationStateClasses =
                         animatingClasses (classNames s3) (heightVar s3) prevHeight timeoutState;
                       timeoutAnimationStateClasses =
                         getStaticStateClasses (classNames s3) (ts_height timeoutState);
                       s4 = updateState
                              \<lparr>animationStateClasses = updatedAnimationStateClasses,
                               height = newHeight, overflow = Some ''hidden'',
                               shouldUseTransitions = (\<not> isCurrentHeightAuto)\<rparr> s3;
                       s5 = clearTimeout (animationClassesTimeoutId s4)
                              (clearTimeout (timeoutId s4) s4)
                   in if isCurrentHeightAuto then
                        let timeoutState' = timeoutState\<lparr>ts_shouldUseTransitions := Some True\<rparr>;
                            s6 = cancelAnimationFrames (animationFrameIds s5) s5;
                            (ids, s7) = startAnimationHelper (StartTick timeoutState') s6;
                            s8 = s7\<lparr>animationFrameIds := ids\<rparr>;
                            (tid, s9) =
                              setTimeout (ClassesTimeout timeoutState' timeoutAnimationStateClasses)
                                totalDuration s8
                        in Inr (s9\<lparr>animationClassesTimeoutId := Some tid\<rparr>)
                      else
                        let s6 = emit (AnimationStart newHeight) s5;
                            (tid, s7) =
                              setTimeout
                                (EndTimeout timeoutState timeoutAnimationStateClasses newHeight)
                                totalDuration s6
                        in Inr (s7\<lparr>timeoutId := Some tid\<rparr>)))"

text \<open>What the three closures do when the browser calls them.\<close>

fun runCallback :: "callback \<Rightarrow> Instance \<Rightarrow> error + Instance" where
  "runCallback (StartTick timeoutState) s =
     Inr (emit (AnimationStart (ts_height timeoutState))
            (updateState (spread (state s) timeoutState) s))"
| "runCallback (ClassesTimeout timeoutState timeoutAnimationStateClasses) s =
     (let s1 = updateState
                 ((state s)\<lparr>animationStateClasses := timeoutAnimationStateClasses,
                            shouldUseTransitions := False\<rparr>) s
      in case hideContent (ts_height timeoutState) s1 of
           Inl e \<Rightarrow> Inl e
         | Inr s2 \<Rightarrow> Inr (emit (AnimationEnd (ts_height timeoutState)) s2))"
| "runCallback (EndTimeout timeoutState timeoutAnimationStateClasses newHeight) s =
     (let timeoutState' =
            timeoutState\<lparr>ts_animationStateClasses := Some timeoutAnimationStateClasses,
                         ts_shouldUseTransitions := Some False\<rparr>;
          s1 = updateState (spread (state s) timeoutState') s
      in case (if heightVar s1 \<noteq> Str ''auto'' then hideContent newHeight s1 else Inr s1) of
           Inl e \<Rightarrow> Inl e
         | Inr s2 \<Rightarrow> Inr (emit (AnimationEnd newHeight) s2))"

subsection \<open>onBeforeUnmount\<close>

definition onBeforeUnmount :: "Instance \<Rightarrow> Instance" where
  "onBeforeUnmount s =
     (let s1 = cancelAnimationFrames (animationFrameIds s) s;
          s2 = clearTimeout (timeoutId s1) s1;
          s3 = clearTimeout (animationClassesTimeoutId s2) s2
      in s3\<lparr>timeoutId := None\<rparr>)"

subsection \<open>The render function\<close>

text \<open>
  The style values the render function builds from template strings, kept in parts:
  \<open>Px h\<close> is \<^verbatim>\<open>`${h}px`\<close>, and a transition
  \<^verbatim>\<open>`height ${duration}ms ${easing} ${delay}ms`\<close> is its four parts.  Of the props
  that \<^verbatim>\<open>omit(props, PROPS_TO_OMIT)\<close> leaves on the element, \<^verbatim>\<open>collapsedHeight\<close>
  and \<^verbatim>\<open>isExpanded\<close> are kept as they come (\<^verbatim>\<open>id\<close> is set again below them).
  The component is rendered without fallthrough attributes (\<^verbatim>\<open>attrs\<close>).
\<close>

datatype css_height = Px real | Keyword string

record Transition =
  tr_property :: string
  tr_duration :: real
  tr_easing :: string
  tr_delay :: real

record VNode =
  v_collapsedHeight :: jsval
  v_isExpanded :: bool
  v_ariaHidden :: bool
  v_class :: "(string \<times> bool) list"
  v_id :: "string option"
  v_height :: css_height
  v_overflow :: "string option"
  v_transition :: "Transition option"
  v_contentClass :: "string option"
  v_contentTransition :: "Transition option"
  v_contentOpacity :: "real option"

definition render :: "Props \<Rightarrow> Instance \<Rightarrow> VNode" where
  "render props s =
     (let timings = getTimings (prefersReducedMotion s) props;
          st = state s
      in \<lparr>v_collapsedHeight = p_collapsedHeight props,
          v_isExpanded = p_isExpanded props,
          v_ariaHidden =
            (case p_ariaHidden props of Some b \<Rightarrow> b | None \<Rightarrow> height st = Num 0),
          v_class = animationStateClasses st,
          v_id = p_id props,
          v_height = (case height st of Num r \<Rightarrow> Px r | Str w \<Rightarrow> Keyword w),
          v_overflow = overflow st,
          v_transition =
            (if shouldUseTransitions st \<and> p_applyInlineTransitions props
             then Some \<lparr>tr_property = ''height'', tr_duration = t_duration timings,
                        tr_easing = p_easing props, tr_delay = t_delay timings\<rparr>
             else None),
          v_contentClass = p_contentClass props,
          v_contentTransition =
            (if p_animateOpacity props
             then Some \<lparr>tr_property = ''opacity'', tr_duration = t_duration timings,
                        tr_easing = p_easing props, tr_delay = t_delay timings\<rparr>
             else None),
          v_contentOpacity =
            (if p_animateOpacity props \<and> height st = Num 0 then Some 0 else None)\<rparr>)"

section \<open>The life of an instance\<close>

text \<open>
  What can happen to a mounted instance: the host re-renders it with some props and
  calls \<^verbatim>\<open>onUpdated\<close> (the browser then measures the content at the given height),
  the browser runs a pending animation frame or a pending timeout, or the host unmounts
  the instance.  A handle that is not pending runs nothing.
\<close>

datatype action = Update Props nat | Frame nat | Timeout nat | Unmount

definition layoutContent :: "nat \<Rightarrow> Instance \<Rightarrow> Instance" where
  "layoutContent h s = s\<lparr>contentElement := map_option (\<lambda>el. el\<lparr>offsetHeight := h\<rparr>) (contentElement s)\<rparr>"

definition fireFrame :: "nat \<Rightarrow> Instance \<Rightarrow> error + Instance" where
  "fireFrame i s =
     (case map_of (frames s) i of
        None \<Rightarrow> Inr s
      | Some cb \<Rightarrow> runCallback cb (s\<lparr>frames := filter (\<lambda>f. fst f \<noteq> i) (frames s)\<rparr>))"

definition fireTimeout :: "nat \<Rightarrow> Instance \<Rightarrow> error + Instance" where
  "fireTimeout i s =
     (case map_of (timers s) i of
        None \<Rightarrow> Inr s
      | Some (ms, cb) \<Rightarrow> runCallback cb (s\<lparr>timers := filter (\<lambda>t. fst t \<noteq> i) (timers s)\<rparr>))"

fun step :: "action \<Rightarrow> Instance \<Rightarrow> error + Instance" where
  "step (Update props h) s = onUpdated props (layoutContent h s)"
| "step (Frame i) s = fireFrame i s"
| "step (Timeout i) s = fireTimeout i s"
| "step Unmount s = Inr (onBeforeUnmount s)"

fun run :: "action list \<Rightarrow> Instance \<Rightarrow> error + Instance" where
  "run [] s = Inr s"
| "run (a # as) s = (case step a s of Inl e \<Rightarrow> Inl e | Inr s' \<Rightarrow> run as s')"

text \<open>Setup and mount on a content element.\<close>

definition start :: "es_target \<Rightarrow> bool \<Rightarrow> Props \<Rightarrow> Element \<Rightarrow> error + Instance" where
  "start target reducedMotion props el =
     (case setupComponent target reducedMotion props of
        Inl e \<Rightarrow> Inl e
      | Inr s \<Rightarrow> mount el s)"

text \<open>A callback of the browser.\<close>

fun isCallback :: "action \<Rightarrow> bool" where
  "isCallback (Frame i) = True"
| "isCallback (Timeout i) = True"
| "isCallback a = False"

text \<open>Setup, mount and a list of actions, in one.\<close>

definition play :: "es_target \<Rightarrow> bool \<Rightarrow> Props \<Rightarrow> Element \<Rightarrow> action list \<Rightarrow> error + Instance" where
  "play target reducedMotion props el as =
     (case start target reducedMotion props el of Inl e \<Rightarrow> Inl e | Inr s \<Rightarrow> run as s)"

text \<open>
  A content element that is shown and measures \<open>h\<close> pixels, and the props after
  \<^verbatim>\<open>isExpanded\<close> was set.
\<close>

definition contentEl :: "nat \<Rightarrow> Element" where
  "contentEl h = \<lparr>display = [], styleOverflow = [], offsetHeight = h\<rparr>"

definition expanded :: "Props \<Rightarrow> Props" where
  "expanded props = props\<lparr>p_isExpanded := True\<rparr>"

text \<open>The same action for props with another \<^verbatim>\<open>collapsedHeight\<close>.\<close>

fun withCollapsedHeight :: "jsval \<Rightarrow> action \<Rightarrow> action" where
  "withCollapsedHeight v (Update props m) = Update (props\<lparr>p_collapsedHeight := v\<rparr>) m"
| "withCollapsedHeight v a = a"

section \<open>The invariant of a mounted instance\<close>

text \<open>The height that the events of a pending callback carry.\<close>

fun cbHeight :: "callback \<Rightarrow> Height" where
  "cbHeight (StartTick ts) = ts_height ts"
| "cbHeight (ClassesTimeout ts c) = ts_height ts"
| "cbHeight (EndTimeout ts c nh) = nh"

text \<open>
  What holds of a pending timeout and of a pending frame: the branch that scheduled it
  is the branch of the height variable, and its captured values agree.
\<close>

fun timerOK :: "Instance \<Rightarrow> callback \<Rightarrow> bool" where
  "timerOK s (StartTick ts) = False"
| "timerOK s (ClassesTimeout ts c) =
     (heightVar s = Str ''auto'' \<and> c = getStaticStateClasses (classNames s) (ts_height ts) \<and>
      height (state s) = ts_height ts)"
| "timerOK s (EndTimeout ts c nh) =
     (heightVar s \<noteq> Str ''auto'' \<and> ts_height ts = nh \<and>
      c = getStaticStateClasses (classNames s) nh)"

fun frameOK :: "Instance \<Rightarrow> callback \<Rightarrow> bool" where
  "frameOK s (StartTick ts) = (heightVar s = Str ''auto'')"
| "frameOK s cb = False"

text \<open>
  Every state of a mounted instance satisfies \<open>Inv\<close>: the element is attached, the
  previous height is the height variable, every pending callback is one the instance
  still holds the handle of, and there is at most one timeout and one frame.
\<close>

definition Inv :: "Instance \<Rightarrow> bool" where
  "Inv s \<longleftrightarrow>
     contentElement s \<noteq> None \<and>
     prevHeightProp s = heightVar s \<and>
     (heightVar s = Str ''auto'' \<or> isNumber (heightVar s) \<or> isPercentage (heightVar s)) \<and>
     length (timers s) \<le> 1 \<and> length (frames s) \<le> 1 \<and>
     (\<forall>t \<in> set (timers s).
        (timeoutId s = Some (fst t) \<or> animationClassesTimeoutId s = Some (fst t)) \<and>
        fst t < nextHandle s \<and> timerOK s (snd (snd t))) \<and>
     (\<forall>f \<in> set (frames s).
        fst f \<in> set (animationFrameIds s) \<and> fst f < nextHandle s \<and> frameOK s (snd f)) \<and>
     (\<forall>t \<in> set (timers s). \<forall>f \<in> set (frames s). cbHeight (snd f) = cbHeight (snd (snd t)))"

text \<open>
  The content element after \<^verbatim>\<open>onUpdated\<close> has shown it again and measured it (lines
  252 to 261).
\<close>

definition shownElement :: "Instance \<Rightarrow> Element \<Rightarrow> Element" where
  "shownElement s el =
     (if height (prevState s) = collapsedHeight s then el\<lparr>display := []\<rparr> else el)\<lparr>styleOverflow := []\<rparr>"

text \<open>
  A cycle that carries the height \<open>h\<close> is in flight, and it started when the events
  \<open>base\<close> had been emitted: its \<^verbatim>\<open>animationStart\<close> is out exactly when no frame is
  pending, its \<^verbatim>\<open>animationEnd\<close> exactly when no timeout is, and nothing else was
  emitted since.
\<close>

definition inflight :: "Height \<Rightarrow> event list \<Rightarrow> Instance \<Rightarrow> bool" where
  "inflight h base s \<longleftrightarrow>
     Inv s \<and>
     (\<forall>t \<in> set (timers s). cbHeight (snd (snd t)) = h) \<and>
     (\<forall>f \<in> set (frames s). cbHeight (snd f) = h) \<and>
     (\<exists>evs. emitted s = base @ evs \<and> distinct evs \<and>
            set evs \<subseteq> {AnimationStart h, AnimationEnd h} \<and>
            (AnimationStart h \<in> set evs \<longleftrightarrow> frames s = []) \<and>
            (AnimationEnd h \<in> set evs \<longleftrightarrow> timers s = []))"

section \<open>Lemmas\<close>

subsection \<open>Numerals and heights\<close>

lemma decimal_examples:
  "decimal ''0'' = Some 0" "decimal ''15'' = Some 15" "decimal ''auto'' = None"
  "decimal ''abc'' = None" "decimal ''0%'' = None" "decimal ''-3'' = Some (-3)"
  "decimal ''12.5'' = Some 12.5"
  by (simp_all add: decimal_def unsigned_decimal_def is_digit_def nat_of_digits_def
      digit_val_def)

lemma auto_not_numeric: "\<not> isNumber (Str ''auto'')" "\<not> isPercentage (Str ''auto'')"
  by (simp_all add: isNumber_def isPercentage_def decimal_def unsigned_decimal_def is_digit_def)

lemma resolveTarget_auto:
  "resolveTarget (Str ''auto'') (Str ''auto'') m =
     (Num (real m), \<lparr>ts_animationStateClasses = None, ts_height = Num (real m),
                     ts_overflow = None, ts_shouldUseTransitions = None\<rparr>)"
  by (simp add: resolveTarget_def auto_not_numeric)

lemma resolveTarget_plain:
  assumes "prev \<noteq> Str ''auto''" "isNumber h \<or> isPercentage h"
  shows "ts_height (snd (resolveTarget h prev m)) = fst (resolveTarget h prev m)"
  using assms by (auto simp: resolveTarget_def)

subsection \<open>What an update does\<close>

text \<open>
  \<^verbatim>\<open>clearTimeout\<close> touches the pending timeouts only.  The two lemmas after it give
  every variable after an update that starts a cycle, one for each branch.
\<close>

lemma timers_clearTimeout:
  "timers (clearTimeout a s) = filter (\<lambda>t. Some (fst t) \<noteq> a) (timers s)"
  by (cases a) (auto simp: clearTimeout_def intro: filter_cong)

lemma clearTimeout_fields [simp]:
  "contentElement (clearTimeout a s) = contentElement s"
  "animationFrameIds (clearTimeout a s) = animationFrameIds s"
  "collapsedHeight (clearTimeout a s) = collapsedHeight s"
  "heightVar (clearTimeout a s) = heightVar s"
  "classNames (clearTimeout a s) = classNames s"
  "prefersReducedMotion (clearTimeout a s) = prefersReducedMotion s"
  "state (clearTimeout a s) = state s"
  "prevState (clearTimeout a s) = prevState s"
  "timeoutId (clearTimeout a s) = timeoutId s"
  "animationClassesTimeoutId (clearTimeout a s) = animationClassesTimeoutId s"
  "prevHeightProp (clearTimeout a s) = prevHeightProp s"
  "prevIsExpanded (clearTimeout a s) = prevIsExpanded s"
  "frames (clearTimeout a s) = frames s"
  "nextHandle (clearTimeout a s) = nextHandle s"
  "emitted (clearTimeout a s) = emitted s"
  by (cases a; simp add: clearTimeout_def)+

lemma onUpdated_noop:
  "contentElement s = None \<or> prevIsExpanded s = p_isExpanded p \<Longrightarrow> onUpdated p s = Inr s"
  by (simp add: onUpdated_def)

lemma onUpdated_auto:
  assumes "contentElement s = Some el" "prevIsExpanded s \<noteq> p_isExpanded p"
    and "prevHeightProp s = Str ''auto''"
  shows "\<exists>s'. onUpdated p s = Inr s' \<and>
    contentElement s' = Some (shownElement s el) \<and>
    heightVar s' = heightVar s \<and> classNames s' = classNames s \<and>
    collapsedHeight s' = collapsedHeight s \<and> prevIsExpanded s' = prevIsExpanded s \<and>
    prefersReducedMotion s' = prefersReducedMotion s \<and>
    prevHeightProp s' = heightVar s \<and> prevState s' = state s \<and>
    state s' =
      \<lparr>animationStateClasses =
         animatingClasses (classNames s) (heightVar s) (Str ''auto'')
           (snd (resolveTarget (heightVar s) (Str ''auto'') (offsetHeight el))),
       height = Num (real (offsetHeight el)), overflow = Some ''hidden'',
       shouldUseTransitions = False\<rparr> \<and>
    timeoutId s' = timeoutId s \<and>
    animationClassesTimeoutId s' = Some (Suc (nextHandle s)) \<and>
    animationFrameIds s' = [nextHandle s] \<and>
    nextHandle s' = Suc (Suc (nextHandle s)) \<and>
    emitted s' = emitted s \<and>
    timers s' =
      filter (\<lambda>t. Some (fst t) \<noteq> animationClassesTimeoutId s)
        (filter (\<lambda>t. Some (fst t) \<noteq> timeoutId s) (timers s)) @
      [(Suc (nextHandle s), p_duration p + p_delay p,
        ClassesTimeout
          ((snd (resolveTarget (heightVar s) (Str ''auto'') (offsetHeight el)))
             \<lparr>ts_shouldUseTransitions := Some True\<rparr>)
          (getStaticStateClasses (classNames s)
             (ts_height (snd (resolveTarget (heightVar s) (Str ''auto'') (offsetHeight el))))))] \<and>
    frames s' =
      filter (\<lambda>f. fst f \<notin> set (animationFrameIds s)) (frames s) @
      [(nextHandle s,
        StartTick ((snd (resolveTarget (heightVar s) (Str ''auto'') (offsetHeight el)))
                     \<lparr>ts_shouldUseTransitions := Some True\<rparr>))]"
  using assms
  by (simp add: onUpdated_def Let_def showContent_def setDisplay_def split_def
      updateState_def emit_def setTimeout_def startAnimationHelper_def cancelAnimationFrames_def
      timers_clearTimeout shownElement_def resolveTarget_def)

lemma onUpdated_plain:
  assumes "contentElement s = Some el" "prevIsExpanded s \<noteq> p_isExpanded p"
    and "prevHeightProp s \<noteq> Str ''auto''"
  shows "\<exists>s'. onUpdated p s = Inr s' \<and>
    contentElement s' = Some (shownElement s el) \<and>
    heightVar s' = heightVar s \<and> classNames s' = classNames s \<and>
    collapsedHeight s' = collapsedHeight s \<and> prevIsExpanded s' = prevIsExpanded s \<and>
    prefersReducedMotion s' = prefersReducedMotion s \<and>
    prevHeightProp s' = heightVar s \<and> prevState s' = state s \<and>
    state s' =
      \<lparr>animationStateClasses =
         animatingClasses (classNames s) (heightVar s) (prevHeightProp s)
           (snd (resolveTarget (heightVar s) (prevHeightProp s) (offsetHeight el))),
       height = fst (resolveTarget (heightVar s) (prevHeightProp s) (offsetHeight el)),
       overflow = Some ''hidden'', shouldUseTransitions = True\<rparr> \<and>
    timeoutId s' = Some (nextHandle s) \<and>
    animationClassesTimeoutId s' = animationClassesTimeoutId s \<and>
    animationFrameIds s' = animationFrameIds s \<and>
    nextHandle s' = Suc (nextHandle s) \<and>
    emitted s' =
      emitted s @
      [AnimationStart (fst (resolveTarget (heightVar s) (prevHeightProp s) (offsetHeight el)))] \<and>
    timers s' =
      filter (\<lambda>t. Some (fst t) \<noteq> animationClassesTimeoutId s)
        (filter (\<lambda>t. Some (fst t) \<noteq> timeoutId s) (timers s)) @
      [(nextHandle s, p_duration p + p_delay p,
        EndTimeout
          (snd (resolveTarget (heightVar s) (prevHeightProp s) (offsetHeight el)))
          (getStaticStateClasses (classNames s)
             (ts_height (snd (resolveTarget (heightVar s) (prevHeightProp s) (offsetHeight el)))))
          (fst (resolveTarget (heightVar s) (prevHeightProp s) (offsetHeight el))))] \<and>
    frames s' = frames s"
  using assms
  by (simp add: onUpdated_def Let_def showContent_def setDisplay_def split_def
      updateState_def emit_def setTimeout_def startAnimationHelper_def cancelAnimationFrames_def
      timers_clearTimeout shownElement_def)

lemma hideContent_Some:
  "contentElement s = Some el \<Longrightarrow>
   hideContent h s =
     Inr (s\<lparr>contentElement := Some (if h = Num 0 then el\<lparr>display := ''none''\<rparr> else el)\<rparr>)"
  by (simp add: hideContent_def setDisplay_def)

subsection \<open>The invariant is kept\<close>

lemma Inv_onUpdated:
  assumes "Inv s"
  shows "\<exists>s'. onUpdated p s = Inr s' \<and> Inv s'"
proof (cases "prevIsExpanded s = p_isExpanded p")
  case True
  then show ?thesis using assms by (simp add: onUpdated_noop)
next
  case False
  from assms obtain el where el: "contentElement s = Some el" by (auto simp: Inv_def)
  have tr: "filter (\<lambda>t. Some (fst t) \<noteq> animationClassesTimeoutId s)
        (filter (\<lambda>t. Some (fst t) \<noteq> timeoutId s) (timers s)) = []"
    using assms by (auto simp: Inv_def filter_empty_conv)
  show ?thesis
  proof (cases "prevHeightProp s = Str ''auto''")
    case True
    have fr: "filter (\<lambda>f. fst f \<notin> set (animationFrameIds s)) (frames s) = []"
      using assms by (auto simp: Inv_def filter_empty_conv)
    from True assms have hv: "heightVar s = Str ''auto''" by (simp add: Inv_def)
    from onUpdated_auto[OF el False True, unfolded tr fr hv resolveTarget_auto]
    obtain s' where "onUpdated p s = Inr s'" and rest: "contentElement s' = Some (shownElement s el)"
      "heightVar s' = Str ''auto''" "prevHeightProp s' = Str ''auto''"
      "classNames s' = classNames s"
      "height (state s') = Num (real (offsetHeight el))"
      "animationClassesTimeoutId s' = Some (Suc (nextHandle s))"
      "animationFrameIds s' = [nextHandle s]"
      "nextHandle s' = Suc (Suc (nextHandle s))"
      "timers s' = [(Suc (nextHandle s), p_duration p + p_delay p,
        ClassesTimeout
          \<lparr>ts_animationStateClasses = None, ts_height = Num (real (offsetHeight el)),
             ts_overflow = None, ts_shouldUseTransitions = Some True\<rparr>
          (getStaticStateClasses (classNames s) (Num (real (offsetHeight el)))))]"
      "frames s' = [(nextHandle s,
        StartTick \<lparr>ts_animationStateClasses = None, ts_height = Num (real (offsetHeight el)),
             ts_overflow = None, ts_shouldUseTransitions = Some True\<rparr>)]"
      by auto
    then show ?thesis by (auto simp: Inv_def)
  next
    case plain: False
    have ok: "frameOK s cb \<Longrightarrow> heightVar s = Str ''auto''" for cb
      by (cases cb) simp_all
    from plain assms have hv: "heightVar s \<noteq> Str ''auto''"
      "isNumber (heightVar s) \<or> isPercentage (heightVar s)" "prevHeightProp s = heightVar s"
      by (auto simp: Inv_def)
    have fr: "frames s = []"
    proof (cases "frames s")
      case (Cons f fs)
      with assms have "frameOK s (snd f)" by (simp add: Inv_def)
      with ok hv show ?thesis by blast
    qed simp
    from onUpdated_plain[OF el False plain, unfolded tr fr hv(3)]
    obtain s' where "onUpdated p s = Inr s'" and rest: "contentElement s' = Some (shownElement s el)"
      "heightVar s' = heightVar s" "prevHeightProp s' = heightVar s"
      "classNames s' = classNames s"
      "timeoutId s' = Some (nextHandle s)"
      "nextHandle s' = Suc (nextHandle s)"
      "timers s' = [] @ [(nextHandle s, p_duration p + p_delay p,
        EndTimeout
          (snd (resolveTarget (heightVar s) (heightVar s) (offsetHeight el)))
          (getStaticStateClasses (classNames s)
             (ts_height (snd (resolveTarget (heightVar s) (heightVar s) (offsetHeight el)))))
          (fst (resolveTarget (heightVar s) (heightVar s) (offsetHeight el))))]"
      "frames s' = []"
      by auto
    then show ?thesis
      using hv resolveTarget_plain[OF hv(1) hv(2), of "offsetHeight el"]
      by (auto simp: Inv_def)
  qed
qed

lemma timerOK_cong:
  "heightVar s' = heightVar s \<Longrightarrow> classNames s' = classNames s \<Longrightarrow>
   height (state s') = height (state s) \<Longrightarrow> timerOK s' cb = timerOK s cb"
  by (cases cb) simp_all

lemma frameOK_cong: "heightVar s' = heightVar s \<Longrightarrow> frameOK s' cb = frameOK s cb"
  by (cases cb) simp_all

lemma frameOK_auto: "frameOK s cb \<Longrightarrow> heightVar s = Str ''auto''"
  by (cases cb) simp_all

lemma Inv_layoutContent: "Inv s \<Longrightarrow> Inv (layoutContent h s)"
proof -
  assume inv: "Inv s"
  have t: "timerOK (layoutContent h s) cb = timerOK s cb" for cb
    by (rule timerOK_cong) (simp_all add: layoutContent_def)
  have f: "frameOK (layoutContent h s) cb = frameOK s cb" for cb
    by (rule frameOK_cong) (simp add: layoutContent_def)
  have p: "timers (layoutContent h s) = timers s" "frames (layoutContent h s) = frames s"
    "timeoutId (layoutContent h s) = timeoutId s"
    "animationClassesTimeoutId (layoutContent h s) = animationClassesTimeoutId s"
    "animationFrameIds (layoutContent h s) = animationFrameIds s"
    "nextHandle (layoutContent h s) = nextHandle s"
    "heightVar (layoutContent h s) = heightVar s"
    "prevHeightProp (layoutContent h s) = prevHeightProp s"
    "contentElement (layoutContent h s) \<noteq> None \<longleftrightarrow> contentElement s \<noteq> None"
    by (simp_all add: layoutContent_def)
  show ?thesis using inv unfolding Inv_def t f p by simp
qed

lemma Inv_onBeforeUnmount:
  assumes "Inv s"
  shows "Inv (onBeforeUnmount s)" "timers (onBeforeUnmount s) = []" "frames (onBeforeUnmount s) = []"
proof -
  have tr: "filter (\<lambda>t. Some (fst t) \<noteq> animationClassesTimeoutId s)
        (filter (\<lambda>t. Some (fst t) \<noteq> timeoutId s) (timers s)) = []"
    using assms by (auto simp: Inv_def filter_empty_conv)
  have fr: "filter (\<lambda>f. fst f \<notin> set (animationFrameIds s)) (frames s) = []"
    using assms by (auto simp: Inv_def filter_empty_conv)
  show t: "timers (onBeforeUnmount s) = []"
    using tr by (simp add: onBeforeUnmount_def Let_def timers_clearTimeout cancelAnimationFrames_def)
  show f: "frames (onBeforeUnmount s) = []"
    using fr by (simp add: onBeforeUnmount_def Let_def cancelAnimationFrames_def)
  have "contentElement (onBeforeUnmount s) = contentElement s"
    "prevHeightProp (onBeforeUnmount s) = prevHeightProp s"
    "heightVar (onBeforeUnmount s) = heightVar s"
    by (simp_all add: onBeforeUnmount_def Let_def cancelAnimationFrames_def)
  with assms t f show "Inv (onBeforeUnmount s)" by (simp add: Inv_def)
qed

lemma Inv_fireFrame:
  assumes "Inv s"
  shows "\<exists>s'. fireFrame i s = Inr s' \<and> Inv s'"
proof (cases "map_of (frames s) i")
  case None
  then show ?thesis using assms by (simp add: fireFrame_def)
next
  case (Some cb)
  then have mem: "(i, cb) \<in> set (frames s)" by (rule map_of_SomeD)
  with assms have fs: "frames s = [(i, cb)]"
    by (cases "frames s") (auto simp: Inv_def)
  from assms mem have "frameOK s cb" by (auto simp: Inv_def)
  then obtain ts where cb: "cb = StartTick ts" and hv: "heightVar s = Str ''auto''"
    by (cases cb) simp_all
  let ?s' = "emit (AnimationStart (ts_height ts))
               (updateState (spread (state s) ts) (s\<lparr>frames := []\<rparr>))"
  have eq: "fireFrame i s = Inr ?s'"
    using Some fs cb by (simp add: fireFrame_def)
  have t: "timerOK ?s' c = timerOK s c" if "c \<in> snd ` snd ` set (timers s)" for c
  proof -
    from that obtain j ms where "(j, ms, c) \<in> set (timers s)" by force
    with assms fs cb have "cbHeight c = ts_height ts" by (fastforce simp: Inv_def)
    moreover from assms \<open>(j, ms, c) \<in> set (timers s)\<close> have "timerOK s c"
      by (fastforce simp: Inv_def)
    ultimately show ?thesis using hv
      by (cases c) (simp_all add: emit_def updateState_def spread_def)
  qed
  have "Inv ?s'"
    using assms t unfolding Inv_def
    by (auto simp: emit_def updateState_def)
  with eq show ?thesis by blast
qed

lemma Inv_fireTimeout:
  assumes "Inv s"
  shows "\<exists>s'. fireTimeout i s = Inr s' \<and> Inv s'"
proof (cases "map_of (timers s) i")
  case None
  then show ?thesis using assms by (simp add: fireTimeout_def)
next
  case (Some mc)
  obtain ms cb where mc: "mc = (ms, cb)" by (cases mc)
  from Some mc have mem: "(i, ms, cb) \<in> set (timers s)" by (simp add: map_of_SomeD)
  with assms have tm: "timers s = [(i, ms, cb)]"
    by (cases "timers s") (auto simp: Inv_def)
  from assms obtain el where el: "contentElement s = Some el" by (auto simp: Inv_def)
  from assms mem have ok: "timerOK s cb" by (fastforce simp: Inv_def)
  show ?thesis
  proof (cases cb)
    case (StartTick ts)
    with ok show ?thesis by simp
  next
    case (ClassesTimeout ts c)
    let ?s1 = "updateState ((state s)\<lparr>animationStateClasses := c, shouldUseTransitions := False\<rparr>)
                 (s\<lparr>timers := []\<rparr>)"
    have el1: "contentElement ?s1 = Some el" using el by (simp add: updateState_def)
    let ?s' = "emit (AnimationEnd (ts_height ts))
                 (?s1\<lparr>contentElement :=
                        Some (if ts_height ts = Num 0 then el\<lparr>display := ''none''\<rparr> else el)\<rparr>)"
    have eq: "fireTimeout i s = Inr ?s'"
      using Some mc tm ClassesTimeout hideContent_Some[OF el1]
      by (simp add: fireTimeout_def Let_def)
    have fo: "frameOK ?s' k = frameOK s k" for k
      by (rule frameOK_cong) (simp add: emit_def updateState_def)
    have "Inv ?s'"
      using assms unfolding Inv_def fo
      by (auto simp: emit_def updateState_def)
    with eq show ?thesis by blast
  next
    case (EndTimeout ts c nh)
    let ?s1 = "updateState
                 (spread (state s)
                    (ts\<lparr>ts_animationStateClasses := Some c, ts_shouldUseTransitions := Some False\<rparr>))
                 (s\<lparr>timers := []\<rparr>)"
    have el1: "contentElement ?s1 = Some el" using el by (simp add: updateState_def)
    have hv1: "heightVar ?s1 = heightVar s" by (simp add: updateState_def)
    from ok EndTimeout have hv: "heightVar s \<noteq> Str ''auto''" by simp
    let ?s' = "emit (AnimationEnd nh)
                 (?s1\<lparr>contentElement :=
                        Some (if nh = Num 0 then el\<lparr>display := ''none''\<rparr> else el)\<rparr>)"
    have eq: "fireTimeout i s = Inr ?s'"
      using Some mc tm EndTimeout hideContent_Some[OF el1] hv hv1
      by (simp add: fireTimeout_def Let_def)
    have fo: "frameOK ?s' k = frameOK s k" for k
      by (rule frameOK_cong) (simp add: emit_def updateState_def)
    have "Inv ?s'"
      using assms unfolding Inv_def fo
      by (auto simp: emit_def updateState_def)
    with eq show ?thesis by blast
  qed
qed

lemma Inv_step:
  assumes "Inv s"
  shows "\<exists>s'. step a s = Inr s' \<and> Inv s'"
proof (cases a)
  case (Update p h)
  then show ?thesis using Inv_onUpdated[OF Inv_layoutContent[OF assms]] by simp
next
  case (Frame i)
  then show ?thesis using Inv_fireFrame[OF assms] by simp
next
  case (Timeout i)
  then show ?thesis using Inv_fireTimeout[OF assms] by simp
next
  case Unmount
  then show ?thesis using Inv_onBeforeUnmount(1)[OF assms] by simp
qed

lemma Inv_run:
  "Inv s \<Longrightarrow> \<exists>s'. run as s = Inr s' \<and> Inv s'"
proof (induction as arbitrary: s)
  case Nil
  then show ?case by simp
next
  case (Cons a as)
  from Inv_step[OF Cons.prems] obtain s1 where s1: "step a s = Inr s1" "Inv s1" by blast
  from Cons.IH[OF s1(2)] s1(1) show ?case by simp
qed

lemma parseHeight_shape:
  assumes "parseHeight target v b = Inr (h, b')"
  shows "h = Str ''auto'' \<or> isNumber h \<or> isPercentage h"
  using assms
  by (auto simp: parseHeight_def clampNumber_def isNumber_def toNumber_def
      split: if_splits sum.splits option.splits jsval.splits)

lemma Inv_start:
  assumes "start target rm p el = Inr s"
  shows "Inv s"
proof -
  from assms obtain s0 where s0: "setupComponent target rm p = Inr s0" and m: "mount el s0 = Inr s"
    by (auto simp: start_def split: sum.splits)
  from s0 obtain h b where ph: "parseHeight target (p_collapsedHeight p) None = Inr (h, b)"
    by (auto simp: setupComponent_def split: sum.splits)
  have sh: "h = Str ''auto'' \<or> isNumber h \<or> isPercentage h"
    using ph by (rule parseHeight_shape)
  from s0 ph have f: "heightVar s0 = h" "prevHeightProp s0 = h" "timers s0 = []" "frames s0 = []"
    by (auto simp: setupComponent_def Let_def)
  from m have "s = s0\<lparr>contentElement := Some (if collapsedHeight s0 = Num 0 then el\<lparr>display := ''none''\<rparr> else el)\<rparr>"
    by (simp add: mount_def onMounted_def hideContent_def setDisplay_def split: if_splits)
  with f sh show ?thesis by (auto simp: Inv_def)
qed

lemma reachable_Inv:
  assumes "start target rm p el = Inr s0"
  shows "\<exists>s. run as s0 = Inr s \<and> Inv s"
  using Inv_run[OF Inv_start[OF assms]] .

subsection \<open>Runs\<close>

lemma run_append:
  "run (as @ bs) s = (case run as s of Inl e \<Rightarrow> Inl e | Inr s' \<Rightarrow> run bs s')"
  by (induction as arbitrary: s) (auto split: sum.splits)

lemma run_callbacks_idle:
  assumes "timers s = []" "frames s = []" "list_all isCallback cbs"
  shows "run cbs s = Inr s"
  using assms(3)
proof (induction cbs)
  case Nil
  then show ?case by simp
next
  case (Cons a cbs)
  then have "step a s = Inr s"
    using assms(1,2) by (cases a) (simp_all add: fireFrame_def fireTimeout_def)
  with Cons show ?case by simp
qed

lemma start_auto:
  "\<exists>s0. start target rm (defaultProps (Str ''auto'')) (contentEl 120) = Inr s0"
  by (simp add: start_def setupComponent_def parseHeight_def auto_not_numeric mount_def
      onMounted_def hideContent_def Let_def defaultProps_def)

subsection \<open>Pending callbacks and the start of a cycle\<close>

lemma Inv_timers_tracked:
  "Inv s \<Longrightarrow> filter (\<lambda>t. Some (fst t) \<noteq> animationClassesTimeoutId s)
        (filter (\<lambda>t. Some (fst t) \<noteq> timeoutId s) (timers s)) = []"
  by (auto simp: Inv_def filter_empty_conv)

lemma Inv_frames_tracked:
  "Inv s \<Longrightarrow> filter (\<lambda>f. fst f \<notin> set (animationFrameIds s)) (frames s) = []"
  by (auto simp: Inv_def filter_empty_conv)

lemma Inv_plain_no_frames:
  assumes "Inv s" "heightVar s \<noteq> Str ''auto''"
  shows "frames s = []"
proof (cases "frames s")
  case (Cons f fs)
  with assms(1) have "frameOK s (snd f)" by (simp add: Inv_def)
  with frameOK_auto assms(2) show ?thesis by blast
qed simp

lemma fireFrame_pending:
  assumes "Inv s" "map_of (frames s) i = Some cb"
  shows "\<exists>ts. cb = StartTick ts \<and> frames s = [(i, cb)] \<and>
           (\<forall>t \<in> set (timers s). cbHeight (snd (snd t)) = ts_height ts) \<and>
           fireFrame i s =
             Inr (emit (AnimationStart (ts_height ts))
                    (updateState (spread (state s) ts) (s\<lparr>frames := []\<rparr>)))"
proof -
  from assms(2) have mem: "(i, cb) \<in> set (frames s)" by (rule map_of_SomeD)
  with assms(1) have fs: "frames s = [(i, cb)]"
    by (cases "frames s") (auto simp: Inv_def)
  from assms(1) mem have "frameOK s cb" by (auto simp: Inv_def)
  then obtain ts where cb: "cb = StartTick ts" by (cases cb) simp_all
  have "\<forall>t \<in> set (timers s). cbHeight (snd (snd t)) = ts_height ts"
    using assms(1) fs cb by (fastforce simp: Inv_def)
  moreover have "fireFrame i s =
             Inr (emit (AnimationStart (ts_height ts))
                    (updateState (spread (state s) ts) (s\<lparr>frames := []\<rparr>)))"
    using assms(2) fs cb by (simp add: fireFrame_def)
  ultimately show ?thesis using cb fs by blast
qed

lemma fireTimeout_pending:
  assumes "Inv s" "map_of (timers s) i = Some (ms, cb)"
  shows "\<exists>s'. fireTimeout i s = Inr s' \<and> Inv s' \<and>
           timers s = [(i, ms, cb)] \<and> timers s' = [] \<and> frames s' = frames s \<and>
           (\<forall>f \<in> set (frames s). cbHeight (snd f) = cbHeight cb) \<and>
           classNames s' = classNames s \<and>
           emitted s' = emitted s @ [AnimationEnd (cbHeight cb)] \<and>
           animationStateClasses (state s') = getStaticStateClasses (classNames s) (cbHeight cb) \<and>
           height (state s') = cbHeight cb \<and>
           \<not> shouldUseTransitions (state s') \<and>
           contentElement s' =
             map_option (\<lambda>el. if cbHeight cb = Num 0 then el\<lparr>display := ''none''\<rparr> else el)
               (contentElement s)"
proof -
  from assms(2) have mem: "(i, ms, cb) \<in> set (timers s)" by (simp add: map_of_SomeD)
  with assms(1) have tm: "timers s = [(i, ms, cb)]"
    by (cases "timers s") (auto simp: Inv_def)
  from assms(1) obtain el where el: "contentElement s = Some el" by (auto simp: Inv_def)
  from assms(1) mem have ok: "timerOK s cb" by (fastforce simp: Inv_def)
  have fh: "\<forall>f \<in> set (frames s). cbHeight (snd f) = cbHeight cb"
    using assms(1) tm by (fastforce simp: Inv_def)
  from Inv_fireTimeout[OF assms(1)] obtain s' where s': "fireTimeout i s = Inr s'" "Inv s'"
    by blast
  show ?thesis
  proof (cases cb)
    case (StartTick ts)
    with ok show ?thesis by simp
  next
    case (ClassesTimeout ts c)
    let ?s1 = "updateState ((state s)\<lparr>animationStateClasses := c, shouldUseTransitions := False\<rparr>)
                 (s\<lparr>timers := []\<rparr>)"
    have el1: "contentElement ?s1 = Some el" using el by (simp add: updateState_def)
    have eq: "fireTimeout i s = Inr (emit (AnimationEnd (ts_height ts))
                 (?s1\<lparr>contentElement :=
                        Some (if ts_height ts = Num 0 then el\<lparr>display := ''none''\<rparr> else el)\<rparr>))"
      using assms(2) tm ClassesTimeout hideContent_Some[OF el1]
      by (simp add: fireTimeout_def Let_def)
    from eq s' ok ClassesTimeout el tm fh show ?thesis
      by (auto simp: emit_def updateState_def)
  next
    case (EndTimeout ts c nh)
    let ?s1 = "updateState
                 (spread (state s)
                    (ts\<lparr>ts_animationStateClasses := Some c, ts_shouldUseTransitions := Some False\<rparr>))
                 (s\<lparr>timers := []\<rparr>)"
    have el1: "contentElement ?s1 = Some el" using el by (simp add: updateState_def)
    have hv1: "heightVar ?s1 = heightVar s" by (simp add: updateState_def)
    from ok EndTimeout have hv: "heightVar s \<noteq> Str ''auto''" by simp
    have eq: "fireTimeout i s = Inr (emit (AnimationEnd nh)
                 (?s1\<lparr>contentElement :=
                        Some (if nh = Num 0 then el\<lparr>display := ''none''\<rparr> else el)\<rparr>))"
      using assms(2) tm EndTimeout hideContent_Some[OF el1] hv hv1
      by (simp add: fireTimeout_def Let_def)
    from eq s' ok EndTimeout el tm fh show ?thesis
      by (auto simp: emit_def updateState_def spread_def)
  qed
qed

lemma cycle_start:
  assumes "Inv s" "prevIsExpanded s \<noteq> p_isExpanded p"
  shows "\<exists>s'. step (Update p h) s = Inr s' \<and> Inv s' \<and>
     (if heightVar s = Str ''auto'' then
        (\<exists>ts c. timers s' = [(Suc (nextHandle s), p_duration p + p_delay p, ClassesTimeout ts c)] \<and>
                frames s' = [(nextHandle s, StartTick ts)] \<and>
                ts_height ts = Num (real h) \<and> emitted s' = emitted s)
      else
        (\<exists>ts c nh. timers s' = [(nextHandle s, p_duration p + p_delay p, EndTimeout ts c nh)] \<and>
                   frames s' = [] \<and> emitted s' = emitted s @ [AnimationStart nh]))"
proof -
  let ?m = "layoutContent h s"
  have im: "Inv ?m" using assms(1) by (rule Inv_layoutContent)
  from assms(1) obtain el0 where "contentElement s = Some el0" by (auto simp: Inv_def)
  then have el: "contentElement ?m = Some (el0\<lparr>offsetHeight := h\<rparr>)"
    by (simp add: layoutContent_def)
  have g: "prevIsExpanded ?m \<noteq> p_isExpanded p" using assms(2) by (simp add: layoutContent_def)
  have same: "heightVar ?m = heightVar s" "prevHeightProp ?m = prevHeightProp s"
    "nextHandle ?m = nextHandle s" "emitted ?m = emitted s" "frames ?m = frames s"
    by (simp_all add: layoutContent_def)
  from assms(1) have ph: "prevHeightProp s = heightVar s" by (simp add: Inv_def)
  from Inv_onUpdated[OF im] obtain s' where s': "onUpdated p ?m = Inr s'" "Inv s'" by blast
  show ?thesis
  proof (cases "heightVar s = Str ''auto''")
    case True
    with ph same have pa: "prevHeightProp ?m = Str ''auto''" by simp
    from onUpdated_auto[OF el g pa] s'(1) True
    show ?thesis
      using s'(2) Inv_timers_tracked[OF im] Inv_frames_tracked[OF im] same
      by (auto simp: resolveTarget_auto)
  next
    case False
    with ph same have pa: "prevHeightProp ?m \<noteq> Str ''auto''" by simp
    from False same im have "frames ?m = []" by (simp add: Inv_plain_no_frames)
    with onUpdated_plain[OF el g pa] s'(1) False
    show ?thesis
      using s'(2) Inv_timers_tracked[OF im] same
      by auto
  qed
qed

subsection \<open>A cycle in flight\<close>

lemma inflight_start:
  assumes "Inv s" "prevIsExpanded s \<noteq> p_isExpanded p"
  shows "\<exists>s' h. step (Update p m) s = Inr s' \<and> inflight h (emitted s) s'"
proof -
  from cycle_start[OF assms, of m] obtain s' where s': "step (Update p m) s = Inr s'" "Inv s'"
    and sh: "if heightVar s = Str ''auto'' then
        (\<exists>ts c. timers s' = [(Suc (nextHandle s), p_duration p + p_delay p, ClassesTimeout ts c)] \<and>
                frames s' = [(nextHandle s, StartTick ts)] \<and>
                ts_height ts = Num (real m) \<and> emitted s' = emitted s)
      else
        (\<exists>ts c nh. timers s' = [(nextHandle s, p_duration p + p_delay p, EndTimeout ts c nh)] \<and>
                   frames s' = [] \<and> emitted s' = emitted s @ [AnimationStart nh])"
    by blast
  show ?thesis
  proof (cases "heightVar s = Str ''auto''")
    case True
    with sh obtain ts c where
      "timers s' = [(Suc (nextHandle s), p_duration p + p_delay p, ClassesTimeout ts c)]"
      "frames s' = [(nextHandle s, StartTick ts)]" "emitted s' = emitted s" by auto
    then have "inflight (ts_height ts) (emitted s) s'"
      using s'(2) by (simp add: inflight_def)
    with s'(1) show ?thesis by blast
  next
    case False
    with sh obtain ts c nh where
      "timers s' = [(nextHandle s, p_duration p + p_delay p, EndTimeout ts c nh)]"
      "frames s' = []" "emitted s' = emitted s @ [AnimationStart nh]" by auto
    then have "inflight nh (emitted s) s'"
      using s'(2) by (simp add: inflight_def)
    with s'(1) show ?thesis by blast
  qed
qed

lemma inflight_step:
  assumes "inflight h base s" "isCallback a"
  shows "\<exists>s'. step a s = Inr s' \<and> inflight h base s'"
proof -
  from assms(1) have inv: "Inv s" by (simp add: inflight_def)
  from assms(1) obtain evs where evs: "emitted s = base @ evs" "distinct evs"
    "set evs \<subseteq> {AnimationStart h, AnimationEnd h}"
    "AnimationStart h \<in> set evs \<longleftrightarrow> frames s = []"
    "AnimationEnd h \<in> set evs \<longleftrightarrow> timers s = []"
    by (auto simp: inflight_def)
  from assms(1) have hs: "\<forall>t \<in> set (timers s). cbHeight (snd (snd t)) = h"
    "\<forall>f \<in> set (frames s). cbHeight (snd f) = h"
    by (simp_all add: inflight_def)
  show ?thesis
  proof (cases a)
    case (Frame i)
    show ?thesis
    proof (cases "map_of (frames s) i")
      case None
      with Frame assms(1) show ?thesis by (simp add: fireFrame_def)
    next
      case (Some cb)
      from fireFrame_pending[OF inv Some] obtain ts where ts: "cb = StartTick ts"
        "frames s = [(i, cb)]"
        "fireFrame i s =
             Inr (emit (AnimationStart (ts_height ts))
                    (updateState (spread (state s) ts) (s\<lparr>frames := []\<rparr>)))"
        by blast
      let ?s' = "emit (AnimationStart (ts_height ts))
                    (updateState (spread (state s) ts) (s\<lparr>frames := []\<rparr>))"
      from Inv_fireFrame[OF inv, of i] ts(3) have inv': "Inv ?s'" by simp
      from hs(2) ts have h: "ts_height ts = h" by simp
      have f: "timers ?s' = timers s" "frames ?s' = []" "emitted ?s' = base @ (evs @ [AnimationStart h])"
        using evs(1) h by (simp_all add: emit_def updateState_def)
      from evs ts(2) have "distinct (evs @ [AnimationStart h])"
        "set (evs @ [AnimationStart h]) \<subseteq> {AnimationStart h, AnimationEnd h}"
        "AnimationEnd h \<in> set (evs @ [AnimationStart h]) \<longleftrightarrow> timers s = []"
        by auto
      with inv' f hs(1) have "inflight h base ?s'"
        unfolding inflight_def by (intro conjI exI[of _ "evs @ [AnimationStart h]"]) simp_all
      with Frame ts(3) show ?thesis by simp
    qed
  next
    case (Timeout i)
    show ?thesis
    proof (cases "map_of (timers s) i")
      case None
      with Timeout assms(1) show ?thesis by (simp add: fireTimeout_def)
    next
      case (Some mc)
      obtain ms cb where mc: "mc = (ms, cb)" by (cases mc)
      from fireTimeout_pending[OF inv Some[unfolded mc]] obtain s' where s':
        "fireTimeout i s = Inr s'" "Inv s'" "timers s = [(i, ms, cb)]" "timers s' = []"
        "frames s' = frames s" "emitted s' = emitted s @ [AnimationEnd (cbHeight cb)]"
        by blast
      from hs(1) s'(3) have h: "cbHeight cb = h" by simp
      have e: "emitted s' = base @ (evs @ [AnimationEnd h])" using s'(6) evs(1) h by simp
      from evs s'(3) have "distinct (evs @ [AnimationEnd h])"
        "set (evs @ [AnimationEnd h]) \<subseteq> {AnimationStart h, AnimationEnd h}"
        "AnimationStart h \<in> set (evs @ [AnimationEnd h]) \<longleftrightarrow> frames s = []"
        by auto
      with s'(2,4,5) e hs(2) have "inflight h base s'"
        unfolding inflight_def by (intro conjI exI[of _ "evs @ [AnimationEnd h]"]) simp_all
      with Timeout s'(1) show ?thesis by simp
    qed
  qed (use assms(2) in simp_all)
qed

lemma inflight_run:
  assumes "inflight h base s" "list_all isCallback cbs"
  shows "\<exists>s'. run cbs s = Inr s' \<and> inflight h base s'"
  using assms
proof (induction cbs arbitrary: s)
  case Nil
  then show ?case by simp
next
  case (Cons a cbs)
  from Cons.prems have "isCallback a" "list_all isCallback cbs" by simp_all
  from inflight_step[OF Cons.prems(1) this(1)] obtain s1 where
    s1: "step a s = Inr s1" "inflight h base s1" by blast
  from Cons.IH[OF s1(2) \<open>list_all isCallback cbs\<close>] s1(1) show ?case by simp
qed

lemma two_distinct:
  assumes "distinct xs" "set xs = {a, b}" "a \<noteq> b"
  shows "xs = [a, b] \<or> xs = [b, a]"
proof -
  from assms have "length xs = 2" using distinct_card[OF assms(1)] by simp
  then obtain x y where xs: "xs = [x, y]"
    by (cases xs; cases "tl xs"; cases "tl (tl xs)") auto
  with assms show ?thesis by (auto simp: doubleton_eq_iff)
qed

subsection \<open>Concrete instances\<close>

lemma play_run: "start t r p e = Inr s0 \<Longrightarrow> play t r p e as = run as s0"
  by (simp add: play_def)


subsection \<open>The props that an update reads\<close>

lemma zero_percent:
  "\<not> isNumber (Str ''0%'')" "isPercentage (Str ''0%'')" "isNumber (Num 0)"
  "clampNumber (Num 0) = Num 0"
  by (simp_all add: isNumber_def isPercentage_def decimal_def unsigned_decimal_def is_digit_def
      clampNumber_def toNumber_def)

lemma parseHeight_zero_percent:
  "parseHeight target (Str ''0%'') binding = parseHeight target (Num 0) binding"
  by (simp add: parseHeight_def zero_percent split: sum.splits)

lemma resolveTarget_zero_percent:
  "resolveTarget (Str ''0%'') prevHeight m = resolveTarget (Num 0) prevHeight m"
  by (simp add: resolveTarget_def zero_percent)

lemma onUpdated_ignores_collapsedHeight:
  "onUpdated (props\<lparr>p_collapsedHeight := v\<rparr>) s = onUpdated props s"
  by (simp add: onUpdated_def cong: sum.case_cong option.case_cong)

lemma step_ignores_collapsedHeight: "step (withCollapsedHeight v a) s = step a s"
  by (cases a) (simp_all add: onUpdated_ignores_collapsedHeight)

lemma run_ignores_collapsedHeight: "run (map (withCollapsedHeight v) as) s = run as s"
  by (induction as arbitrary: s) (simp_all add: step_ignores_collapsedHeight split: sum.splits)

subsection \<open>The static classes\<close>



section \<open>Unmounting\<close>

text \<open>
  Claim C9.  Unmounting cancels every pending callback: whatever happened to a mounted
  instance before, after \<^verbatim>\<open>onBeforeUnmount\<close> no timeout and no animation frame is
  pending, and whatever handles the browser tries afterwards, nothing runs: the instance
  (its state, its emitted events) stays as the unmount left it.
\<close>

theorem unmount_cancels_all:
  assumes "start target reducedMotion props el = Inr s0" and "list_all isCallback cbs"
  shows "\<exists>s. run as s0 = Inr s \<and>
           timers (onBeforeUnmount s) = [] \<and> frames (onBeforeUnmount s) = [] \<and>
           run (as @ Unmount # cbs) s0 = Inr (onBeforeUnmount s)"
proof -
  from reachable_Inv[OF assms(1)] obtain s where s: "run as s0 = Inr s" "Inv s" by blast
  note u = Inv_onBeforeUnmount[OF s(2)]
  have "run (Unmount # cbs) s = Inr (onBeforeUnmount s)"
    using run_callbacks_idle[OF u(2) u(3) assms(2)] by simp
  with s(1) u show ?thesis by (simp add: run_append)
qed

text \<open>
  An instance with height \<open>auto\<close> is unmounted while its start tick and its completion
  timeout are pending.
\<close>

theorem unmount_cancels_all_witness:
  "\<exists>s0 s. start ES2015 False (defaultProps (Str ''auto'')) (contentEl 120) = Inr s0 \<and>
     list_all isCallback [Frame 0, Timeout 1] \<and>
     run [Update (expanded (defaultProps (Str ''auto''))) 120] s0 = Inr s \<and>
     timers s \<noteq> [] \<and> frames s \<noteq> [] \<and>
     timers (onBeforeUnmount s) = [] \<and> frames (onBeforeUnmount s) = [] \<and>
     run ([Update (expanded (defaultProps (Str ''auto''))) 120] @ Unmount # [Frame 0, Timeout 1]) s0
       = Inr (onBeforeUnmount s)"
proof -
  obtain s0 where s0: "start ES2015 False (defaultProps (Str ''auto'')) (contentEl 120) = Inr s0"
    using start_auto by blast
  have cb: "list_all isCallback [Frame 0, Timeout 1]" by simp
  have p: "map_sum id (\<lambda>s. timers s \<noteq> [] \<and> frames s \<noteq> [])
             (play ES2015 False (defaultProps (Str ''auto'')) (contentEl 120)
                [Update (expanded (defaultProps (Str ''auto''))) 120]) = Inr True"
    by code_simp
  from unmount_cancels_all[OF s0 cb, of "[Update (expanded (defaultProps (Str ''auto''))) 120]"]
  obtain s where s: "run [Update (expanded (defaultProps (Str ''auto''))) 120] s0 = Inr s"
    "timers (onBeforeUnmount s) = []" "frames (onBeforeUnmount s) = []"
    "run ([Update (expanded (defaultProps (Str ''auto''))) 120] @ Unmount # [Frame 0, Timeout 1]) s0
       = Inr (onBeforeUnmount s)"
    by blast
  from p s0 s(1) have "timers s \<noteq> [] \<and> frames s \<noteq> []" by (simp add: play_def)
  with s0 cb s show ?thesis by blast
qed

section \<open>The events of one cycle\<close>

text \<open>
  Claim C10.  When a cycle starts in any state a mounted instance can reach, and the
  browser then only runs callbacks (no other cycle supersedes it), every event emitted
  since the start carries one and the same height; and once nothing is pending any more
  (the cycle has run to completion) these events are exactly one \<^verbatim>\<open>animationStart\<close>
  and one \<^verbatim>\<open>animationEnd\<close> with that height.  This covers both branches: the branch
  of the height variable decides which callbacks the cycle schedules.
\<close>

theorem start_end_same_height:
  assumes "start target reducedMotion props0 el = Inr s0" and "list_all isCallback cbs"
  shows "\<exists>s. run as s0 = Inr s \<and>
          (prevIsExpanded s \<noteq> p_isExpanded props \<longrightarrow>
            (\<exists>s1 s2 h evs. step (Update props m) s = Inr s1 \<and> run cbs s1 = Inr s2 \<and>
               emitted s2 = emitted s @ evs \<and>
               set evs \<subseteq> {AnimationStart h, AnimationEnd h} \<and>
               (timers s2 = [] \<and> frames s2 = [] \<longrightarrow>
                  evs = [AnimationStart h, AnimationEnd h] \<or>
                  evs = [AnimationEnd h, AnimationStart h])))"
proof -
  from reachable_Inv[OF assms(1)] obtain s where s: "run as s0 = Inr s" "Inv s" by blast
  have "\<exists>s1 s2 h evs. step (Update props m) s = Inr s1 \<and> run cbs s1 = Inr s2 \<and>
               emitted s2 = emitted s @ evs \<and>
               set evs \<subseteq> {AnimationStart h, AnimationEnd h} \<and>
               (timers s2 = [] \<and> frames s2 = [] \<longrightarrow>
                  evs = [AnimationStart h, AnimationEnd h] \<or>
                  evs = [AnimationEnd h, AnimationStart h])"
    if g: "prevIsExpanded s \<noteq> p_isExpanded props"
  proof -
    from inflight_start[OF s(2) g, of m] obtain s1 h where
      s1: "step (Update props m) s = Inr s1" "inflight h (emitted s) s1" by blast
    from inflight_run[OF s1(2) assms(2)] obtain s2 where
      s2: "run cbs s1 = Inr s2" "inflight h (emitted s) s2" by blast
    from s2(2) obtain evs where evs: "emitted s2 = emitted s @ evs" "distinct evs"
      "set evs \<subseteq> {AnimationStart h, AnimationEnd h}"
      "AnimationStart h \<in> set evs \<longleftrightarrow> frames s2 = []"
      "AnimationEnd h \<in> set evs \<longleftrightarrow> timers s2 = []"
      by (auto simp: inflight_def)
    have "evs = [AnimationStart h, AnimationEnd h] \<or> evs = [AnimationEnd h, AnimationStart h]"
      if "timers s2 = [] \<and> frames s2 = []"
    proof -
      from that evs have "set evs = {AnimationStart h, AnimationEnd h}" by auto
      with evs(2) show ?thesis by (intro two_distinct) simp_all
    qed
    with s1(1) s2(1) evs(1,3) show ?thesis by blast
  qed
  with s(1) show ?thesis by blast
qed

text \<open>
  A cycle of an instance with height \<open>auto\<close>: the start tick runs, then the completion
  timeout.
\<close>

theorem start_end_same_height_witness:
  "\<exists>s0 s. start ES2015 False (defaultProps (Str ''auto'')) (contentEl 120) = Inr s0 \<and>
     list_all isCallback [Frame 0, Timeout 1] \<and>
     run [] s0 = Inr s \<and>
     prevIsExpanded s \<noteq> p_isExpanded (expanded (defaultProps (Str ''auto''))) \<and>
     (\<exists>s1 s2 h evs.
        step (Update (expanded (defaultProps (Str ''auto''))) 120) s = Inr s1 \<and>
        run [Frame 0, Timeout 1] s1 = Inr s2 \<and>
        emitted s2 = emitted s @ evs \<and>
        set evs \<subseteq> {AnimationStart h, AnimationEnd h} \<and>
        timers s2 = [] \<and> frames s2 = [] \<and>
        (evs = [AnimationStart h, AnimationEnd h] \<or> evs = [AnimationEnd h, AnimationStart h]))"
proof -
  let ?p = "defaultProps (Str ''auto'')"
  let ?e = "expanded ?p"
  obtain s0 where s0: "start ES2015 False ?p (contentEl 120) = Inr s0"
    using start_auto by blast
  have cb: "list_all isCallback [Frame 0, Timeout 1]" by simp
  have "map_sum id prevIsExpanded (play ES2015 False ?p (contentEl 120) []) = Inr False"
    by code_simp
  with s0 have g: "prevIsExpanded s0 \<noteq> p_isExpanded ?e"
    by (simp add: play_run expanded_def)
  have "map_sum id (\<lambda>s. timers s = [] \<and> frames s = [])
          (play ES2015 False ?p (contentEl 120) [Update ?e 120, Frame 0, Timeout 1]) = Inr True"
    by code_simp
  then have fin: "map_sum id (\<lambda>s. timers s = [] \<and> frames s = [])
          (run [Update ?e 120, Frame 0, Timeout 1] s0) = Inr True"
    using s0 by (simp add: play_run)
  from start_end_same_height[OF s0 cb, of "[]" ?e 120] g
  obtain s1 s2 h evs where r: "step (Update ?e 120) s0 = Inr s1"
    "run [Frame 0, Timeout 1] s1 = Inr s2" "emitted s2 = emitted s0 @ evs"
    "set evs \<subseteq> {AnimationStart h, AnimationEnd h}"
    "timers s2 = [] \<and> frames s2 = [] \<longrightarrow>
       evs = [AnimationStart h, AnimationEnd h] \<or> evs = [AnimationEnd h, AnimationStart h]"
    by auto
  from fin r(1,2) have idle: "timers s2 = []" "frames s2 = []" by simp_all
  with r(5) have "evs = [AnimationStart h, AnimationEnd h] \<or> evs = [AnimationEnd h, AnimationStart h]"
    by blast
  with r(1-4) idle have
    "\<exists>s1 s2 h evs.
        step (Update ?e 120) s0 = Inr s1 \<and> run [Frame 0, Timeout 1] s1 = Inr s2 \<and>
        emitted s2 = emitted s0 @ evs \<and> set evs \<subseteq> {AnimationStart h, AnimationEnd h} \<and>
        timers s2 = [] \<and> frames s2 = [] \<and>
        (evs = [AnimationStart h, AnimationEnd h] \<or> evs = [AnimationEnd h, AnimationStart h])"
    by blast
  moreover have "run [] s0 = Inr s0" by simp
  ultimately show ?thesis using s0 cb g by blast
qed

section \<open>One sequence in flight\<close>

text \<open>
  Claim C5.  In every state a mounted instance can reach at most one completion timeout
  and at most one start tick are pending.  When a new cycle starts there, the update
  leaves exactly one completion timeout pending, and one start tick in the branch that
  animates from \<open>auto\<close> (none in the other branch), and no handle that was pending
  before the update is pending after it: what the previous cycle had scheduled is
  cancelled.
\<close>

theorem one_sequence_in_flight:
  assumes "start target reducedMotion props0 el = Inr s0"
  shows "\<exists>s. run as s0 = Inr s \<and> length (timers s) \<le> 1 \<and> length (frames s) \<le> 1 \<and>
          (prevIsExpanded s \<noteq> p_isExpanded props \<longrightarrow>
             (\<exists>s'. step (Update props m) s = Inr s' \<and>
                length (timers s') = 1 \<and>
                length (frames s') = (if heightVar s = Str ''auto'' then 1 else 0) \<and>
                (\<forall>t \<in> set (timers s). fst t \<notin> fst ` set (timers s')) \<and>
                (\<forall>f \<in> set (frames s). fst f \<notin> fst ` set (frames s'))))"
proof -
  from reachable_Inv[OF assms(1)] obtain s where s: "run as s0 = Inr s" "Inv s" by blast
  from s(2) have len: "length (timers s) \<le> 1" "length (frames s) \<le> 1"
    and old: "\<forall>t \<in> set (timers s). fst t < nextHandle s" "\<forall>f \<in> set (frames s). fst f < nextHandle s"
    by (auto simp: Inv_def)
  have "\<exists>s'. step (Update props m) s = Inr s' \<and>
                length (timers s') = 1 \<and>
                length (frames s') = (if heightVar s = Str ''auto'' then 1 else 0) \<and>
                (\<forall>t \<in> set (timers s). fst t \<notin> fst ` set (timers s')) \<and>
                (\<forall>f \<in> set (frames s). fst f \<notin> fst ` set (frames s'))"
    if g: "prevIsExpanded s \<noteq> p_isExpanded props"
  proof -
    from cycle_start[OF s(2) g, of m] obtain s' where s': "step (Update props m) s = Inr s'"
      and sh: "if heightVar s = Str ''auto'' then
        (\<exists>ts c. timers s' = [(Suc (nextHandle s), p_duration props + p_delay props, ClassesTimeout ts c)] \<and>
                frames s' = [(nextHandle s, StartTick ts)] \<and>
                ts_height ts = Num (real m) \<and> emitted s' = emitted s)
      else
        (\<exists>ts c nh. timers s' = [(nextHandle s, p_duration props + p_delay props, EndTimeout ts c nh)] \<and>
                   frames s' = [] \<and> emitted s' = emitted s @ [AnimationStart nh])"
      by blast
    show ?thesis
    proof (cases "heightVar s = Str ''auto''")
      case True
      with sh old s' show ?thesis by fastforce
    next
      case False
      with sh old s' show ?thesis by fastforce
    qed
  qed
  with s(1) len show ?thesis by blast
qed

text \<open>
  A second cycle starts on an instance with height \<open>auto\<close> while the start tick and
  the completion timeout of the first are pending.
\<close>

theorem one_sequence_in_flight_witness:
  "\<exists>s0 s s'. start ES2015 False (defaultProps (Str ''auto'')) (contentEl 120) = Inr s0 \<and>
     run [Update (expanded (defaultProps (Str ''auto''))) 120] s0 = Inr s \<and>
     length (timers s) = 1 \<and> length (frames s) = 1 \<and>
     prevIsExpanded s \<noteq> p_isExpanded (expanded (defaultProps (Str ''auto''))) \<and>
     step (Update (expanded (defaultProps (Str ''auto''))) 130) s = Inr s' \<and>
     length (timers s') = 1 \<and> length (frames s') = 1 \<and>
     fst ` set (timers s) \<inter> fst ` set (timers s') = {} \<and>
     fst ` set (frames s) \<inter> fst ` set (frames s') = {}"
proof -
  let ?p = "defaultProps (Str ''auto'')"
  let ?e = "expanded ?p"
  obtain s0 where s0: "start ES2015 False ?p (contentEl 120) = Inr s0"
    using start_auto by blast
  have ev: "map_sum id (\<lambda>s. length (timers s) = 1 \<and> length (frames s) = 1 \<and>
                 \<not> prevIsExpanded s \<and> heightVar s = Str ''auto'')
          (play ES2015 False ?p (contentEl 120) [Update ?e 120]) = Inr True"
    by code_simp
  from one_sequence_in_flight[OF s0, of "[Update ?e 120]" ?e 130]
  obtain s where s: "run [Update ?e 120] s0 = Inr s"
    and c: "prevIsExpanded s \<noteq> p_isExpanded ?e \<longrightarrow>
             (\<exists>s'. step (Update ?e 130) s = Inr s' \<and>
                length (timers s') = 1 \<and>
                length (frames s') = (if heightVar s = Str ''auto'' then 1 else 0) \<and>
                (\<forall>t \<in> set (timers s). fst t \<notin> fst ` set (timers s')) \<and>
                (\<forall>f \<in> set (frames s). fst f \<notin> fst ` set (frames s')))"
    by blast
  from ev s0 s have f: "length (timers s) = 1" "length (frames s) = 1" "\<not> prevIsExpanded s"
    "heightVar s = Str ''auto''"
    by (simp_all add: play_run)
  have g: "prevIsExpanded s \<noteq> p_isExpanded ?e" using f(3) by (simp add: expanded_def)
  with c f(4) obtain s' where s': "step (Update ?e 130) s = Inr s'"
    "length (timers s') = 1" "length (frames s') = 1"
    "\<forall>t \<in> set (timers s). fst t \<notin> fst ` set (timers s')"
    "\<forall>f \<in> set (frames s). fst f \<notin> fst ` set (frames s')"
    by auto
  from s'(4,5) have "fst ` set (timers s) \<inter> fst ` set (timers s') = {}"
    "fst ` set (frames s) \<inter> fst ` set (frames s') = {}"
    by blast+
  with s0 s f g s'(1-3) show ?thesis by blast
qed

section \<open>The completion timeout\<close>



section \<open>The literal 0%\<close>

text \<open>
  Claim C6.  The percentage \<open>0%\<close> is the number 0 to the component.
  \<^verbatim>\<open>parseHeight\<close> gives the same result for both (the height 0, and the assignment
  of \<open>hidden\<close> to \<^verbatim>\<open>overflow\<close>), and so does the resolution of the target inside a
  cycle, whatever the previous height and the measured content height.  Hence an instance
  set up with \<open>0%\<close> and one set up with 0 are the same instance and stay the same under
  any actions, the re-renders carrying \<open>0%\<close> for the one and 0 for the other: the same
  heights, classes, overflow, display of the content element, events and timers.
\<close>

theorem zero_percent_is_zero:
  "parseHeight target (Str ''0%'') binding = parseHeight target (Num 0) binding \<and>
   parseHeight ES5 (Str ''0%'') binding = Inr (Num 0, Some ''hidden'') \<and>
   resolveTarget (Str ''0%'') prevHeight contentHeight =
     resolveTarget (Num 0) prevHeight contentHeight \<and>
   play target reducedMotion (props\<lparr>p_collapsedHeight := Str ''0%''\<rparr>) el
       (map (withCollapsedHeight (Str ''0%'')) as) =
     play target reducedMotion (props\<lparr>p_collapsedHeight := Num 0\<rparr>) el
       (map (withCollapsedHeight (Num 0)) as)"
proof -
  have "setupComponent target reducedMotion (props\<lparr>p_collapsedHeight := Str ''0%''\<rparr>) =
        setupComponent target reducedMotion (props\<lparr>p_collapsedHeight := Num 0\<rparr>)"
    by (simp add: setupComponent_def parseHeight_zero_percent split: sum.splits prod.splits)
  then have "play target reducedMotion (props\<lparr>p_collapsedHeight := Str ''0%''\<rparr>) el
       (map (withCollapsedHeight (Str ''0%'')) as) =
     play target reducedMotion (props\<lparr>p_collapsedHeight := Num 0\<rparr>) el
       (map (withCollapsedHeight (Num 0)) as)"
    by (simp add: play_def start_def run_ignores_collapsedHeight split: sum.splits)
  moreover have "parseHeight ES5 (Str ''0%'') binding = Inr (Num 0, Some ''hidden'')"
    by (simp add: parseHeight_def zero_percent assignOverflow_def)
  ultimately show ?thesis
    using parseHeight_zero_percent resolveTarget_zero_percent by simp
qed

text \<open>A full cycle of an instance with \<open>0%\<close> and of one with 0.\<close>

theorem zero_percent_is_zero_witness:
  "play ES5 False (defaultProps (Str ''0%'')) (contentEl 120)
      [Update (expanded (defaultProps (Str ''0%''))) 120, Timeout 0] =
   play ES5 False (defaultProps (Num 0)) (contentEl 120)
      [Update (expanded (defaultProps (Num 0))) 120, Timeout 0] \<and>
   map_sum id emitted
     (play ES5 False (defaultProps (Str ''0%'')) (contentEl 120)
        [Update (expanded (defaultProps (Str ''0%''))) 120, Timeout 0]) =
   Inr [AnimationStart (Num 0), AnimationEnd (Num 0)]"
proof -
  have a: "defaultProps (Str ''0%'') = (defaultProps (Num 7))\<lparr>p_collapsedHeight := Str ''0%''\<rparr>"
    "defaultProps (Num 0) = (defaultProps (Num 7))\<lparr>p_collapsedHeight := Num 0\<rparr>"
    by (simp_all add: defaultProps_def)
  have b: "[Update (expanded (defaultProps v)) 120, Timeout 0] =
      map (withCollapsedHeight v) [Update (expanded (defaultProps (Num 7))) 120, Timeout 0]" for v
    by (simp add: defaultProps_def expanded_def)
  have "map_sum id emitted
     (play ES5 False (defaultProps (Num 0)) (contentEl 120)
        [Update (expanded (defaultProps (Num 0))) 120, Timeout 0]) =
   Inr [AnimationStart (Num 0), AnimationEnd (Num 0)]"
    by code_simp
  with zero_percent_is_zero[of ES5 _ _ _ False "defaultProps (Num 7)" "contentEl 120"
      "[Update (expanded (defaultProps (Num 7))) 120, Timeout 0]"]
  show ?thesis unfolding a[symmetric] b[symmetric] by simp
qed

section \<open>What the code does where a claim fails\<close>

text \<open>
  Claim C1, at its own scenario: \<^verbatim>\<open>collapsedHeight\<close> 0, content of 120 pixels, one
  re-render with \<^verbatim>\<open>isExpanded\<close> set.  The height variable of \<^verbatim>\<open>setup\<close> is assigned
  once, from \<^verbatim>\<open>collapsedHeight\<close>, and \<^verbatim>\<open>isExpanded\<close> never changes it, so the cycle
  goes from 0 to 0 and the content height is not its target.  Compiled with \<^verbatim>\<open>let\<close>
  as it is, \<^verbatim>\<open>setup\<close> ends in a ReferenceError.  Compiled to ES5, the update emits
  \<^verbatim>\<open>animationStart\<close> with 0 and the classes are those of an animation to height zero
  that goes neither up nor down; when the timeout runs, \<^verbatim>\<open>animationEnd\<close> comes with 0
  and the static classes are those of height zero.
\<close>

theorem toggle_of_collapsed_zero:
  "play ES2015 False (defaultProps (Num 0)) (contentEl 120)
     [Update (expanded (defaultProps (Num 0))) 120] = Inl ReferenceError \<and>
   map_sum id emitted
     (play ES5 False (defaultProps (Num 0)) (contentEl 120)
        [Update (expanded (defaultProps (Num 0))) 120]) =
     Inr [AnimationStart (Num 0)] \<and>
   map_sum id (animationStateClasses \<circ> state)
     (play ES5 False (defaultProps (Num 0)) (contentEl 120)
        [Update (expanded (defaultProps (Num 0))) 120]) =
     Inr [(''vah-animating'', True), (''vah-animating--up'', False),
          (''vah-animating--down'', False), (''vah-animating--to-height-zero'', True),
          (''vah-animating--to-height-auto'', False),
          (''vah-animating--to-height-specific'', False)] \<and>
   map_sum id emitted
     (play ES5 False (defaultProps (Num 0)) (contentEl 120)
        [Update (expanded (defaultProps (Num 0))) 120, Timeout 0]) =
     Inr [AnimationStart (Num 0), AnimationEnd (Num 0)] \<and>
   map_sum id (animationStateClasses \<circ> state)
     (play ES5 False (defaultProps (Num 0)) (contentEl 120)
        [Update (expanded (defaultProps (Num 0))) 120, Timeout 0]) =
     Inr [(''vah-static'', True), (''vah-static--height-zero'', True),
          (''vah-static--height-specific'', False), (''vah-static--height-auto'', False)]"
  by code_simp

text \<open>
  Claim C2, at a second re-render with \<^verbatim>\<open>isExpanded\<close> still set: \<^verbatim>\<open>prevIsExpanded\<close>
  is still the value of \<^verbatim>\<open>setup\<close>, so the cycle starts again.  In the ordinary branch
  a second \<^verbatim>\<open>animationStart\<close> is emitted and the timeout with handle 0 gives way to
  one with handle 1; in the branch from \<open>auto\<close> the timeout 1 and the frame 0 give way
  to the timeout 3 and the frame 2.  And when \<^verbatim>\<open>isExpanded\<close> goes back to the value
  of \<^verbatim>\<open>setup\<close>, no cycle starts (last conjunct).
\<close>

theorem rerender_restarts_the_cycle:
  "map_sum id (\<lambda>s. (emitted s, map fst (timers s), prevIsExpanded s))
     (play ES5 False (defaultProps (Num 0)) (contentEl 120)
        [Update (expanded (defaultProps (Num 0))) 120]) =
     Inr ([AnimationStart (Num 0)], [0], False) \<and>
   map_sum id (\<lambda>s. (emitted s, map fst (timers s), prevIsExpanded s))
     (play ES5 False (defaultProps (Num 0)) (contentEl 120)
        [Update (expanded (defaultProps (Num 0))) 120,
         Update (expanded (defaultProps (Num 0))) 120]) =
     Inr ([AnimationStart (Num 0), AnimationStart (Num 0)], [1], False) \<and>
   map_sum id (\<lambda>s. (map fst (timers s), map fst (frames s)))
     (play ES2015 False (defaultProps (Str ''auto'')) (contentEl 120)
        [Update (expanded (defaultProps (Str ''auto''))) 120]) =
     Inr ([1], [0]) \<and>
   map_sum id (\<lambda>s. (map fst (timers s), map fst (frames s)))
     (play ES2015 False (defaultProps (Str ''auto'')) (contentEl 120)
        [Update (expanded (defaultProps (Str ''auto''))) 120,
         Update (expanded (defaultProps (Str ''auto''))) 120]) =
     Inr ([3], [2]) \<and>
   map_sum id (\<lambda>s. (emitted s, map fst (timers s)))
     (play ES5 False (defaultProps (Num 0)) (contentEl 120)
        [Update (expanded (defaultProps (Num 0))) 120, Timeout 0,
         Update (defaultProps (Num 0)) 120]) =
     Inr ([AnimationStart (Num 0), AnimationEnd (Num 0)], [])"
  by code_simp

text \<open>
  Claim C3, at a re-render of an expanded instance whose \<^verbatim>\<open>collapsedHeight\<close> became
  \<open>abc\<close> (or -5): the validator rejects the value and logs it, but the cycle starts
  again, as at any re-render of an expanded instance, and emits its events.
\<close>

theorem invalid_collapsedHeight_restarts_the_cycle:
  "validator (Num (- 5)) = (False, [InvalidHeight (Num (- 5))]) \<and>
   validator (Str ''abc'') = (False, [InvalidHeight (Str ''abc'')]) \<and>
   map_sum id emitted
     (play ES5 False (defaultProps (Num 0)) (contentEl 120)
        [Update (expanded (defaultProps (Num 0))) 120, Timeout 0]) =
     Inr [AnimationStart (Num 0), AnimationEnd (Num 0)] \<and>
   map_sum id emitted
     (play ES5 False (defaultProps (Num 0)) (contentEl 120)
        [Update (expanded (defaultProps (Num 0))) 120, Timeout 0,
         Update (expanded (defaultProps (Str ''abc''))) 120]) =
     Inr [AnimationStart (Num 0), AnimationEnd (Num 0), AnimationStart (Num 0)] \<and>
   map_sum id emitted
     (play ES2015 False (defaultProps (Str ''auto'')) (contentEl 120)
        [Update (expanded (defaultProps (Str ''auto''))) 120, Frame 0, Timeout 1,
         Update (expanded (defaultProps (Num (- 5)))) 120, Frame 2, Timeout 3]) =
     Inr [AnimationStart (Num 120), AnimationEnd (Num 120),
          AnimationStart (Num 120), AnimationEnd (Num 120)]"
  by code_simp

text \<open>
  Claim C4, with reduced motion preferred: \<^verbatim>\<open>getTimings\<close> gives 0 and 0 and the
  transition of the rendered style has them, but the completion timeout is scheduled
  with the 250 ms of the props.
\<close>

theorem reduced_motion_keeps_the_timeout:
  "getTimings True (expanded (defaultProps (Num 0))) = \<lparr>t_delay = 0, t_duration = 0\<rparr> \<and>
   map_sum id (\<lambda>s. v_transition (render (expanded (defaultProps (Num 0))) s))
     (play ES5 True (defaultProps (Num 0)) (contentEl 120)
        [Update (expanded (defaultProps (Num 0))) 120]) =
     Inr (Some \<lparr>tr_property = ''height'', tr_duration = 0, tr_easing = ''ease'', tr_delay = 0\<rparr>) \<and>
   map_sum id (\<lambda>s. map (\<lambda>t. fst (snd t)) (timers s))
     (play ES5 True (defaultProps (Num 0)) (contentEl 120)
        [Update (expanded (defaultProps (Num 0))) 120]) =
     Inr [250] \<and>
   map_sum id (\<lambda>s. map (\<lambda>t. fst (snd t)) (timers s))
     (play ES2015 True (defaultProps (Str ''auto'')) (contentEl 120)
        [Update (expanded (defaultProps (Str ''auto''))) 120]) =
     Inr [250]"
  by code_simp

text \<open>
  Claim C7, at \<^verbatim>\<open>collapsedHeight\<close> 0 and 50%: compiled with \<^verbatim>\<open>let\<close> as it is,
  \<^verbatim>\<open>setup\<close> ends in a ReferenceError (\<^verbatim>\<open>parseHeight\<close> assigns \<^verbatim>\<open>overflow\<close> before
  its declaration); compiled to ES5, the first state has the parsed height, the previous
  state is the same state, and the overflow is \<open>visible\<close>, as it is for \<open>auto\<close>.
\<close>

theorem initial_overflow_is_not_hidden:
  "play ES2015 False (defaultProps (Num 0)) (contentEl 120) [] = Inl ReferenceError \<and>
   play ES2015 False (defaultProps (Str ''50%'')) (contentEl 120) [] = Inl ReferenceError \<and>
   map_sum id (\<lambda>s. (height (state s), overflow (state s), prevState s = state s))
     (play ES5 False (defaultProps (Num 0)) (contentEl 120) []) =
     Inr (Num 0, Some ''visible'', True) \<and>
   map_sum id (\<lambda>s. (height (state s), overflow (state s), prevState s = state s))
     (play ES5 False (defaultProps (Str ''50%'')) (contentEl 120) []) =
     Inr (Str ''50%'', Some ''visible'', True) \<and>
   map_sum id (\<lambda>s. v_overflow (render (defaultProps (Num 0)) s))
     (play ES5 False (defaultProps (Num 0)) (contentEl 120) []) =
     Inr (Some ''visible'') \<and>
   map_sum id (\<lambda>s. (height (state s), overflow (state s), prevState s = state s))
     (play ES2015 False (defaultProps (Str ''auto'')) (contentEl 120) []) =
     Inr (Str ''auto'', Some ''visible'', True)"
  by code_simp

end
